theory Spec2Isabelle
  imports Main "HOL-Library.Multiset"
begin

section \<open>Strings of the host language\<close>

text \<open>
  JavaScript strings are modelled as \<^typ>\<open>string\<close>: \<open>s.length\<close> is \<^const>\<open>length\<close>.
  A value of static type \<open>string\<close> that may be \<open>undefined\<close> at run time is a
  \<^typ>\<open>string option\<close>, \<^const>\<open>None\<close> being \<open>undefined\<close>.
\<close>

text \<open>Interpolation in a template literal: \<open>undefined\<close> prints as the word itself.\<close>

fun jsString :: "string option \<Rightarrow> string" where
  "jsString None = ''undefined''"
| "jsString (Some s) = s"

text \<open>\<open>Array.prototype.join\<close> on an array of strings.\<close>

fun joinStr :: "string \<Rightarrow> string list \<Rightarrow> string" where
  "joinStr sep [] = []"
| "joinStr sep [x] = x"
| "joinStr sep (x # y # ys) = x @ sep @ joinStr sep (y # ys)"

text \<open>\<open>Array.prototype.join\<close> prints an \<open>undefined\<close> element as the empty string.\<close>

fun jsElem :: "string option \<Rightarrow> string" where
  "jsElem None = []"
| "jsElem (Some s) = s"

definition join :: "string \<Rightarrow> string option list \<Rightarrow> string" where
  "join sep xs = joinStr sep (map jsElem xs)"

subsection \<open>Object.keys\<close>

text \<open>
  An object is the list of its own properties in the order of their insertion, each key
  once. \<open>Object.keys\<close> lists the keys that are array indices first, in ascending numeric
  order, and then the other keys in the order of their insertion. An array index is the
  canonical decimal text of an integer below \<open>2\<^sup>3\<^sup>2 - 1\<close>: digits only, without a leading
  zero unless it is \<open>0\<close> itself.
\<close>

definition isDigit :: "char \<Rightarrow> bool" where
  "isDigit c = (48 \<le> (of_char c :: nat) \<and> (of_char c :: nat) \<le> 57)"

definition decimal :: "string \<Rightarrow> nat" where
  "decimal s = foldl (\<lambda>n c. 10 * n + (of_char c - 48)) 0 s"

definition isArrayIndex :: "string \<Rightarrow> bool" where
  "isArrayIndex s =
     (s \<noteq> [] \<and> list_all isDigit s \<and> (s = ''0'' \<or> hd s \<noteq> CHR ''0'')
      \<and> decimal s < 4294967295)"

text \<open>
  The properties in the order in which \<open>Object.keys\<close> lists their keys; \<open>object[key]\<close> for
  a listed key is the value of that property.
\<close>

definition objectEntries :: "(string \<times> 'a) list \<Rightarrow> (string \<times> 'a) list" where
  "objectEntries fs =
     sort_key (\<lambda>(k, t). decimal k) (filter (\<lambda>(k, t). isArrayIndex k) fs)
     @ filter (\<lambda>(k, t). \<not> isArrayIndex k) fs"

subsection \<open>shortifyPropTypes\<close>

text \<open>
  The dot of a regular expression without the \<open>s\<close> flag matches any code unit except a
  line terminator.
\<close>

definition lineTerminator :: "char \<Rightarrow> bool" where
  "lineTerminator c = (c = CHR 0x0A \<or> c = CHR 0x0D)"

text \<open>Does \<open>/PropTypes./\<close> match at the head of the string?\<close>

definition matchPropTypes :: "string \<Rightarrow> bool" where
  "matchPropTypes s =
     (take 9 s = ''PropTypes'' \<and> 10 \<le> length s \<and> \<not> lineTerminator (s ! 9))"

text \<open>Does \<open>/.isRequired/\<close> match at the head of the string?\<close>

definition matchIsRequired :: "string \<Rightarrow> bool" where
  "matchIsRequired s =
     (s \<noteq> [] \<and> \<not> lineTerminator (hd s) \<and> take 10 (tl s) = ''isRequired'')"

text \<open>
  \<open>value.replace(/PropTypes./g, '')\<close>: one scan from left to right; a match is dropped
  and the scan resumes behind it, any other code unit is copied.
\<close>

fun replacePropTypes :: "string \<Rightarrow> string" where
  "replacePropTypes [] = []"
| "replacePropTypes (c # cs) =
     (if matchPropTypes (c # cs) then replacePropTypes (drop 9 cs)
      else c # replacePropTypes cs)"

text \<open>\<open>.replace(/.isRequired/g, '')\<close>, in the same way.\<close>

fun replaceIsRequired :: "string \<Rightarrow> string" where
  "replaceIsRequired [] = []"
| "replaceIsRequired (c # cs) =
     (if matchIsRequired (c # cs) then replaceIsRequired (drop 10 cs)
      else c # replaceIsRequired cs)"

definition shortifyPropTypes :: "string \<Rightarrow> string" where
  "shortifyPropTypes v = replaceIsRequired (replacePropTypes v)"

section \<open>Data model\<close>

text \<open>
  Modelled from the spec: the enum \<open>InspectionType\<close> is declared in \<open>./inspectValue\<close>,
  which is not part of the source at hand. The formatter tests a kind against the members
  \<open>STRING\<close> and \<open>OBJECT\<close> only and prints it with \<open>toString()\<close>; every other member is
  \<open>OTHER\<close>, carrying its display name.
\<close>

datatype InspectionType = STRING | OBJECT | OTHER string

fun toString :: "InspectionType \<Rightarrow> string" where
  "toString STRING = ''string''"
| "toString OBJECT = ''object''"
| "toString (OTHER s) = s"

text \<open>A thrown exception: a property read on \<open>undefined\<close>, or a fault of the classifier.\<close>

datatype error = TypeError | InspectError

text \<open>
  The classifier \<open>inspectValue\<close> is imported as well; the formatter takes it as a
  parameter. It returns the inferred kind of a source text, or throws.
\<close>

type_synonym inspector = "string \<Rightarrow> error + InspectionType"

text \<open>
  Modelled from the spec: the enum \<open>PropTypesType\<close> is declared in \<open>./types\<close>. Its members
  are the names the documentation generator gives to the kinds of a descriptor.
\<close>

definition CUSTOM :: string where "CUSTOM = ''custom''"
definition FUNC :: string where "FUNC = ''func''"
definition SHAPE :: string where "SHAPE = ''shape''"
definition INSTANCEOF :: string where "INSTANCEOF = ''instanceOf''"
definition OBJECTOF :: string where "OBJECTOF = ''objectOf''"
definition UNION :: string where "UNION = ''union''"
definition ENUM :: string where "ENUM = ''enum''"
definition ARRAYOF :: string where "ARRAYOF = ''arrayOf''"

definition handledKinds :: "string list" where
  "handledKinds = [CUSTOM, FUNC, SHAPE, INSTANCEOF, OBJECTOF, UNION, ENUM, ARRAYOF]"

text \<open>\<open>interface EnumValue\<close>; its field \<open>value\<close> is \<open>enumText\<close> here.\<close>

record EnumValue =
  enumText :: string
  computed :: bool

text \<open>
  The \<open>value\<close> of a union or an enum: an array of members, or anything else, which the
  formatter passes on as it is (a string, or \<open>undefined\<close> when the field is missing).
\<close>

datatype 'a members = Members "'a list" | Scalar "string option"

text \<open>
  \<open>interface PropType\<close>, a descriptor: a union tagged by \<open>name\<close>. Each kind carries the
  fields the formatter reads for it: \<open>raw\<close> for a custom type, \<open>value\<close> for the others,
  \<^const>\<open>None\<close> when the field is missing. The fields of a shape stand in the order of
  their declaration, which is the order of their insertion into the object. \<open>Other n\<close> is a descriptor whose name \<open>n\<close> is none of
  \<^const>\<open>handledKinds\<close>.
\<close>

datatype PropType =
    Custom "string option"
  | Func
  | Shape "(string \<times> PropType) list option"
  | InstanceOf "string option"
  | ObjectOf "PropType option"
  | Union "PropType members"
  | Enum "EnumValue members"
  | ArrayOf "PropType option"
  | Other string

fun propTypeName :: "PropType \<Rightarrow> string" where
  "propTypeName (Custom _) = CUSTOM"
| "propTypeName Func = FUNC"
| "propTypeName (Shape _) = SHAPE"
| "propTypeName (InstanceOf _) = INSTANCEOF"
| "propTypeName (ObjectOf _) = OBJECTOF"
| "propTypeName (Union _) = UNION"
| "propTypeName (Enum _) = ENUM"
| "propTypeName (ArrayOf _) = ARRAYOF"
| "propTypeName (Other n) = n"

text \<open>
  \<open>interface TypeDef\<close>, the formatted type; its field \<open>value\<close> is \<open>val\<close> here. Caption
  and value are declared as strings, but \<open>generateType\<close> stores the \<open>value\<close> of a descriptor
  in them, which may be missing.
\<close>

record TypeDef =
  name :: string
  caption :: "string option"
  val :: "string option"
  inferedType :: "InspectionType option"

text \<open>
  The documentation tags of a property, as \<open>ExtractedProp\<close> and \<open>ExtractedJsDocParam\<close> of
  the imported modules expose them: \<open>getPrettyName()\<close> and \<open>getTypeName()\<close> of a parameter,
  \<open>getTypeName()\<close> of the \<open>returns\<close> tag, and \<open>docgenInfo.type\<close> of the property.
\<close>

record ExtractedJsDocParam =
  prettyName :: string
  typeName :: "string option"

record JsDocTags =
  params :: "ExtractedJsDocParam list option"
  returns :: "string option"

record ExtractedProp =
  docgenType :: PropType
  jsDocTags :: "JsDocTags option"

section \<open>The formatter\<close>

definition MAX_CAPTION_LENGTH :: nat where
  "MAX_CAPTION_LENGTH = 35"

definition createTypeDef ::
  "string \<Rightarrow> string option \<Rightarrow> string option \<Rightarrow> InspectionType option \<Rightarrow> TypeDef" where
  "createTypeDef n c v i =
     \<lparr>name = n, caption = c, val = (if v \<noteq> None then v else c), inferedType = i\<rparr>"

definition generateComputedValue :: "inspector \<Rightarrow> string \<Rightarrow> string \<Rightarrow> error + TypeDef" where
  "generateComputedValue iv tn v =
     (case iv v of
        Inl e \<Rightarrow> Inl e
      | Inr k \<Rightarrow>
          Inr (createTypeDef tn (Some (toString k))
                 (Some (if k = OBJECT then shortifyPropTypes v else v)) (Some k)))"

definition generateCustom :: "inspector \<Rightarrow> string option \<Rightarrow> error + TypeDef" where
  "generateCustom iv raw =
     (case raw of
        Some r \<Rightarrow>
          (case iv r of
             Inl e \<Rightarrow> Inl e
           | Inr k \<Rightarrow>
               (let v = (if k = OBJECT then shortifyPropTypes r else r) in
                Inr (createTypeDef CUSTOM
                       (Some (if length v \<le> MAX_CAPTION_LENGTH then v else ''custom''))
                       (Some v) (Some k))))
      | None \<Rightarrow> Inr (createTypeDef CUSTOM (Some ''custom'') None None))"

text \<open>The text of one parameter: \<open>prettyName: typeName\<close>, or the name alone.\<close>

definition funcParam :: "ExtractedJsDocParam \<Rightarrow> string" where
  "funcParam x =
     (case typeName x of
        Some t \<Rightarrow> prettyName x @ '': '' @ t
      | None \<Rightarrow> prettyName x)"

text \<open>
  Reading \<open>jsDocTags.params\<close> or \<open>jsDocTags.returns\<close> throws when the tags, the
  parameters or the return tag are \<open>undefined\<close>.
\<close>

definition generateFuncSignature :: "ExtractedProp \<Rightarrow> bool \<Rightarrow> bool \<Rightarrow> error + string" where
  "generateFuncSignature ep hasParams hasReturns =
     (case jsDocTags ep of
        None \<Rightarrow> (if hasParams \<or> hasReturns then Inl TypeError else Inr ''()'')
      | Some tags \<Rightarrow>
          (case (if hasParams
                 then (case params tags of
                         None \<Rightarrow> Inl TypeError
                       | Some ps \<Rightarrow> Inr [''('' @ joinStr '', '' (map funcParam ps) @ '')''])
                 else Inr [''()'']) of
             Inl e \<Rightarrow> Inl e
           | Inr funcParts \<Rightarrow>
               (if hasReturns
                then (case returns tags of
                        None \<Rightarrow> Inl TypeError
                      | Some t \<Rightarrow> Inr (joinStr '' '' (funcParts @ [''=> '' @ t])))
                else Inr (joinStr '' '' funcParts))))"

definition generateFunc :: "ExtractedProp \<Rightarrow> error + TypeDef" where
  "generateFunc ep =
     (case jsDocTags ep of
        Some tags \<Rightarrow>
          (let hasParams = (params tags \<noteq> None); hasReturns = (returns tags \<noteq> None) in
           if hasParams \<or> hasReturns
           then (case generateFuncSignature ep hasParams hasReturns of
                   Inl e \<Rightarrow> Inl e
                 | Inr s \<Rightarrow> Inr (createTypeDef FUNC (Some ''func'') (Some s) None))
           else Inr (createTypeDef FUNC (Some ''func'') None None))
      | None \<Rightarrow> Inr (createTypeDef FUNC (Some ''func'') None None))"

definition generateEnumValue :: "inspector \<Rightarrow> EnumValue \<Rightarrow> error + TypeDef" where
  "generateEnumValue iv ev =
     (if computed ev then generateComputedValue iv ''enumvalue'' (enumText ev)
      else Inr (createTypeDef ''enumvalue'' (Some (enumText ev)) None None))"

text \<open>
  The \<open>reduce\<close> of \<open>generateEnum\<close>: the accumulator collects the captions and the values;
  an exception of a member ends it.
\<close>

definition enumStep ::
  "inspector \<Rightarrow> error + (string option list \<times> string option list) \<Rightarrow> EnumValue \<Rightarrow>
   error + (string option list \<times> string option list)" where
  "enumStep iv acc v =
     (case acc of
        Inl e \<Rightarrow> Inl e
      | Inr (cs, vs) \<Rightarrow>
          (case generateEnumValue iv v of
             Inl e \<Rightarrow> Inl e
           | Inr r \<Rightarrow> Inr (cs @ [caption r], vs @ [val r])))"

definition generateEnum :: "inspector \<Rightarrow> EnumValue members \<Rightarrow> error + TypeDef" where
  "generateEnum iv v =
     (case v of
        Members ms \<Rightarrow>
          (case foldl (enumStep iv) (Inr ([], [])) ms of
             Inl e \<Rightarrow> Inl e
           | Inr (cs, vs) \<Rightarrow>
               Inr (createTypeDef ENUM (Some (join '' | '' cs)) (Some (join '' | '' vs)) None))
      | Scalar s \<Rightarrow> Inr (createTypeDef ENUM s None None))"

text \<open>
  The single \<open>try\<close>/\<open>catch\<close> of \<open>generateType\<close>: an exception of the dispatch is logged
  and the statement behind the \<open>try\<close> returns the fallback.
\<close>

definition unknownTypeDef :: TypeDef where
  "unknownTypeDef = createTypeDef ''unknown'' (Some ''unknown'') None None"

definition tryCatch :: "error + TypeDef \<Rightarrow> TypeDef" where
  "tryCatch r = (case r of Inl e \<Rightarrow> unknownTypeDef | Inr t \<Rightarrow> t)"

definition braceAfter :: "string \<Rightarrow> string" where
  "braceAfter x = x @ ''[]''"

definition braceAround :: "string \<Rightarrow> string" where
  "braceAround x = ''['' @ x @ '']''"

definition formatObjectOf :: "string \<Rightarrow> string" where
  "formatObjectOf x = ''objectOf('' @ x @ '')''"

text \<open>
  The four formatters that call \<open>generateType\<close> again take that call as their first
  argument \<open>gen\<close>: \<open>gen t\<close> is \<open>generateType(t, extractedProp)\<close>.
\<close>

text \<open>
  \<open>Object.keys\<close> throws on \<open>undefined\<close>; otherwise the fields are formatted in the order
  in which it lists their keys.
\<close>

definition generateShape ::
  "(PropType \<Rightarrow> TypeDef) \<Rightarrow> (string \<times> PropType) list option \<Rightarrow> error + TypeDef" where
  "generateShape gen v =
     (case v of
        None \<Rightarrow> Inl TypeError
      | Some fs \<Rightarrow>
          (let fields = joinStr '', ''
                 (map (\<lambda>(key, t). key @ '': '' @ jsString (val (gen t))) (objectEntries fs));
               shape = ''{ '' @ fields @ '' }''
           in Inr (createTypeDef SHAPE
                     (Some (if length shape \<le> MAX_CAPTION_LENGTH then shape else ''object''))
                     (Some shape) None)))"

text \<open>
  \<open>generateType(undefined, ...)\<close> throws on reading \<open>type.name\<close>, inside its own \<open>try\<close>:
  it returns the fallback.
\<close>

definition generateNested :: "(PropType \<Rightarrow> TypeDef) \<Rightarrow> PropType option \<Rightarrow> TypeDef" where
  "generateNested gen v = (case v of None \<Rightarrow> tryCatch (Inl TypeError) | Some t \<Rightarrow> gen t)"

text \<open>Reading \<open>value.length\<close> throws when the value is \<open>undefined\<close>.\<close>

definition generateObjectOf ::
  "(PropType \<Rightarrow> TypeDef) \<Rightarrow> PropType option \<Rightarrow> error + TypeDef" where
  "generateObjectOf gen v =
     (let r = generateNested gen v in
      case (if name r = CUSTOM
            then (case inferedType r of
                    Some k \<Rightarrow>
                      Inr (if k \<noteq> STRING \<and> k \<noteq> OBJECT then Some (toString k) else caption r)
                  | None \<Rightarrow> Inr (caption r))
            else if name r = SHAPE
            then (case val r of
                    None \<Rightarrow> Inl TypeError
                  | Some x \<Rightarrow> Inr (if length x \<le> MAX_CAPTION_LENGTH then Some x else caption r))
            else Inr (caption r)) of
        Inl e \<Rightarrow> Inl e
      | Inr c \<Rightarrow>
          Inr (createTypeDef OBJECTOF (Some (formatObjectOf (jsString c)))
                 (Some (formatObjectOf (jsString (val r)))) None))"

text \<open>
  The \<open>reduce\<close> of \<open>generateUnion\<close>: one step pushes the caption and the value of a
  formatted member.
\<close>

definition unionStep ::
  "(PropType \<Rightarrow> TypeDef) \<Rightarrow> string option list \<times> string option list \<Rightarrow> PropType \<Rightarrow>
   string option list \<times> string option list" where
  "unionStep gen acc t = (let r = gen t in (fst acc @ [caption r], snd acc @ [val r]))"

definition generateUnion ::
  "(PropType \<Rightarrow> TypeDef) \<Rightarrow> PropType members \<Rightarrow> error + TypeDef" where
  "generateUnion gen v =
     (case v of
        Members ms \<Rightarrow>
          (let values = foldl (unionStep gen) ([], []) ms
           in Inr (createTypeDef UNION (Some (join '' | '' (fst values)))
                     (Some (join '' | '' (snd values))) None))
      | Scalar s \<Rightarrow> Inr (createTypeDef UNION s None None))"

text \<open>
  The last statement of \<open>generateArray\<close>, reached with the local variables \<open>caption\<close>
  and \<open>value\<close>: it reads \<open>value\<close> only.
\<close>

definition arrayFallback :: "string option \<Rightarrow> string option \<Rightarrow> error + TypeDef" where
  "arrayFallback c v = Inr (createTypeDef ARRAYOF (Some (braceAfter (jsString v))) None None)"

definition generateArray ::
  "(PropType \<Rightarrow> TypeDef) \<Rightarrow> PropType option \<Rightarrow> error + TypeDef" where
  "generateArray gen v =
     (let r = generateNested gen v in
      if name r = CUSTOM
      then (case inferedType r of
              Some k \<Rightarrow>
                if k \<noteq> STRING \<and> k \<noteq> OBJECT then arrayFallback (Some (toString k)) (val r)
                else if k = OBJECT
                then (case val r of
                        None \<Rightarrow> Inl TypeError
                      | Some x \<Rightarrow>
                          Inr (createTypeDef ARRAYOF
                                 (Some (if length x \<le> MAX_CAPTION_LENGTH then braceAround x
                                        else braceAfter (toString k)))
                                 (Some (braceAround x)) None))
                else arrayFallback (caption r) (val r)
            | None \<Rightarrow> arrayFallback (caption r) (val r))
      else if name r = SHAPE
      then (case val r of
              None \<Rightarrow> Inl TypeError
            | Some x \<Rightarrow>
                Inr (createTypeDef ARRAYOF
                       (Some (if length x \<le> MAX_CAPTION_LENGTH then braceAround x
                              else braceAfter (jsString (caption r))))
                       (Some (braceAround x)) None))
      else arrayFallback (caption r) (val r))"

text \<open>The recursive calls of the four formatters stay inside the descriptor.\<close>

lemma set_objectEntries: "set (objectEntries fs) = set fs"
  by (auto simp: objectEntries_def)

lemma generateShape_cong [fundef_cong]:
  assumes "v = v'"
    and "\<And>fs key t. v' = Some fs \<Longrightarrow> (key, t) \<in> set fs \<Longrightarrow> gen t = gen' t"
  shows "generateShape gen v = generateShape gen' v'"
proof (cases v')
  case None
  with assms(1) show ?thesis by (simp add: generateShape_def)
next
  case (Some fs)
  have eq: "map (\<lambda>(key, t). key @ '': '' @ jsString (val (gen t))) (objectEntries fs) =
        map (\<lambda>(key, t). key @ '': '' @ jsString (val (gen' t))) (objectEntries fs)"
    by (rule map_cong) (auto simp: set_objectEntries assms(2) [OF Some])
  show ?thesis unfolding generateShape_def assms(1) Some option.case eq ..
qed

lemma generateNested_cong:
  "v = v' \<Longrightarrow> (\<And>t. v' = Some t \<Longrightarrow> gen t = gen' t)
   \<Longrightarrow> generateNested gen v = generateNested gen' v'"
  unfolding generateNested_def by (auto split: option.splits)

lemma generateObjectOf_cong [fundef_cong]:
  assumes "v = v'" and "\<And>t. v' = Some t \<Longrightarrow> gen t = gen' t"
  shows "generateObjectOf gen v = generateObjectOf gen' v'"
proof -
  have "generateNested gen v = generateNested gen' v'"
    using assms by (rule generateNested_cong)
  then show ?thesis unfolding generateObjectOf_def by simp
qed

lemma generateArray_cong [fundef_cong]:
  assumes "v = v'" and "\<And>t. v' = Some t \<Longrightarrow> gen t = gen' t"
  shows "generateArray gen v = generateArray gen' v'"
proof -
  have "generateNested gen v = generateNested gen' v'"
    using assms by (rule generateNested_cong)
  then show ?thesis unfolding generateArray_def by simp
qed

lemma generateUnion_cong [fundef_cong]:
  assumes "v = v'"
    and "\<And>ms t. v' = Members ms \<Longrightarrow> t \<in> set ms \<Longrightarrow> gen t = gen' t"
  shows "generateUnion gen v = generateUnion gen' v'"
proof (cases v')
  case (Members ms)
  have "foldl (unionStep gen) a ms = foldl (unionStep gen') a ms" for a
    by (rule foldl_cong) (auto simp: unionStep_def assms(2) [OF Members])
  with assms(1) Members show ?thesis by (simp add: generateUnion_def)
next
  case (Scalar s)
  with assms(1) show ?thesis by (simp add: generateUnion_def)
qed

fun generateType :: "inspector \<Rightarrow> ExtractedProp \<Rightarrow> PropType \<Rightarrow> TypeDef" where
  "generateType iv ep (Custom raw) = tryCatch (generateCustom iv raw)"
| "generateType iv ep Func = tryCatch (generateFunc ep)"
| "generateType iv ep (Shape v) = tryCatch (generateShape (generateType iv ep) v)"
| "generateType iv ep (InstanceOf v) = tryCatch (Inr (createTypeDef INSTANCEOF v None None))"
| "generateType iv ep (ObjectOf v) = tryCatch (generateObjectOf (generateType iv ep) v)"
| "generateType iv ep (Union v) = tryCatch (generateUnion (generateType iv ep) v)"
| "generateType iv ep (Enum v) = tryCatch (generateEnum iv v)"
| "generateType iv ep (ArrayOf v) = tryCatch (generateArray (generateType iv ep) v)"
| "generateType iv ep (Other n) = tryCatch (Inr (createTypeDef n (Some n) None None))"

section \<open>The rendering entry point\<close>

text \<open>
  \<open>createPropText\<close> builds the display element and is imported; a call is recorded by
  its arguments: the text, and the \<open>title\<close> property (\<^const>\<open>None\<close> when the call
  passes \<open>undefined\<close> or no properties). \<open>renderType\<close> returns \<open>null\<close>, here
  \<^const>\<open>None\<close>, when it renders nothing.
\<close>

record PropText =
  propText :: "string option"
  title :: "string option"

definition renderType :: "inspector \<Rightarrow> ExtractedProp \<Rightarrow> PropText option" where
  "renderType iv ep =
     (let t = docgenType ep in
      if propTypeName t \<in> {CUSTOM, SHAPE, INSTANCEOF, OBJECTOF, UNION, ENUM, ARRAYOF}
      then (let r = generateType iv ep t in
            Some \<lparr>propText = caption r,
                  title = (if caption r \<noteq> val r then val r else None)\<rparr>)
      else if propTypeName t = FUNC
      then (let r = generateType iv ep t in Some \<lparr>propText = val r, title = None\<rparr>)
      else None)"

section \<open>Notions of the specification\<close>

text \<open>Does a pattern match anywhere in the string?\<close>

fun hasPropTypes :: "string \<Rightarrow> bool" where
  "hasPropTypes [] = False"
| "hasPropTypes (c # cs) = (matchPropTypes (c # cs) \<or> hasPropTypes cs)"

fun hasIsRequired :: "string \<Rightarrow> bool" where
  "hasIsRequired [] = False"
| "hasIsRequired (c # cs) = (matchIsRequired (c # cs) \<or> hasIsRequired cs)"

text \<open>
  The rendering of a shape in the words of the specification: the fields as
  \<open>name: value\<close>, separated by a comma and a space, between \<open>{\<close> and \<open>}\<close> with a space
  inside each brace.
\<close>

fun renderFields :: "(string \<times> string) list \<Rightarrow> string" where
  "renderFields [] = []"
| "renderFields [(k, v)] = k @ '': '' @ v"
| "renderFields ((k, v) # f # fs) = k @ '': '' @ v @ '', '' @ renderFields (f # fs)"

definition shapeString :: "inspector \<Rightarrow> ExtractedProp \<Rightarrow> (string \<times> PropType) list \<Rightarrow> string" where
  "shapeString iv ep fs =
     ''{ '' @ renderFields (map (\<lambda>(k, t). (k, jsString (val (generateType iv ep t)))) fs) @ '' }''"

text \<open>
  The caption of the nested type that \<open>objectOf(...)\<close> wraps, in the words of the
  specification.
\<close>

definition nestedCaption :: "TypeDef \<Rightarrow> string option" where
  "nestedCaption r =
     (if name r = CUSTOM \<and> inferedType r \<notin> {None, Some STRING, Some OBJECT}
      then map_option toString (inferedType r)
      else if name r = SHAPE \<and> (case val r of Some x \<Rightarrow> length x \<le> 35 | None \<Rightarrow> False)
      then val r
      else caption r)"

text \<open>
  The signature of a function in the words of the specification: each parameter as
  \<open>name: typeName\<close>, without the colon and the type when it declares none; the parameters
  separated by a comma and a space, in parentheses, \<open>()\<close> when there is no list of
  parameters; then \<open> => \<close> and the return type when one is documented.
\<close>

definition paramText :: "ExtractedJsDocParam \<Rightarrow> string" where
  "paramText x = prettyName x @ (case typeName x of None \<Rightarrow> [] | Some t \<Rightarrow> '': '' @ t)"

fun paramList :: "ExtractedJsDocParam list \<Rightarrow> string" where
  "paramList [] = []"
| "paramList [x] = paramText x"
| "paramList (x # y # ys) = paramText x @ '', '' @ paramList (y # ys)"

definition funcSignature :: "ExtractedJsDocParam list option \<Rightarrow> string option \<Rightarrow> string" where
  "funcSignature ps rt =
     (case ps of None \<Rightarrow> ''()'' | Some xs \<Rightarrow> ''('' @ paramList xs @ '')'')
     @ (case rt of None \<Rightarrow> [] | Some t \<Rightarrow> '' => '' @ t)"

text \<open>The property documents parameters or a return type.\<close>

definition documented :: "ExtractedProp \<Rightarrow> bool" where
  "documented ep =
     (case jsDocTags ep of None \<Rightarrow> False | Some tags \<Rightarrow> params tags \<noteq> None \<or> returns tags \<noteq> None)"

definition docSignature :: "ExtractedProp \<Rightarrow> string" where
  "docSignature ep =
     (case jsDocTags ep of None \<Rightarrow> ''()'' | Some tags \<Rightarrow> funcSignature (params tags) (returns tags))"

text \<open>
  The descriptors on which the dispatch of \<open>generateType\<close> throws: a shape without its
  value (\<open>Object.keys(undefined)\<close>), a custom type on whose raw text the classifier throws,
  and an enum with a computed member on whose text the classifier throws.
\<close>

definition raises :: "inspector \<Rightarrow> PropType \<Rightarrow> bool" where
  "raises iv t =
     (case t of
        Custom (Some raw) \<Rightarrow> isl (iv raw)
      | Shape None \<Rightarrow> True
      | Enum (Members ms) \<Rightarrow> list_ex (\<lambda>m. computed m \<and> isl (iv (enumText m))) ms
      | _ \<Rightarrow> False)"

text \<open>
  The descriptors whose formatted type is built by a call of \<open>createTypeDef\<close> without a
  value: a custom type without raw text, a function without documented parameters and
  return type, \<open>instanceOf\<close>, a union or an enum whose value is not an array, the last
  statement of \<open>generateArray\<close> (the nested type is neither a shape nor a custom type of
  inferred kind \<open>OBJECT\<close>), a kind without a case of its own, and the fallback after a
  fault.
\<close>

fun omitsValue :: "inspector \<Rightarrow> ExtractedProp \<Rightarrow> PropType \<Rightarrow> bool" where
  "omitsValue iv ep (Custom raw) = (raw = None \<or> raises iv (Custom raw))"
| "omitsValue iv ep Func = (\<not> documented ep)"
| "omitsValue iv ep (Shape v) = raises iv (Shape v)"
| "omitsValue iv ep (InstanceOf v) = True"
| "omitsValue iv ep (ObjectOf v) = False"
| "omitsValue iv ep (Union v) = (case v of Members ts \<Rightarrow> False | Scalar s \<Rightarrow> True)"
| "omitsValue iv ep (Enum v) = (case v of Members ms \<Rightarrow> raises iv (Enum v) | Scalar s \<Rightarrow> True)"
| "omitsValue iv ep (ArrayOf v) =
     (let r = generateNested (generateType iv ep) v in
      \<not> (name r = CUSTOM \<and> inferedType r = Some OBJECT) \<and> name r \<noteq> SHAPE)"
| "omitsValue iv ep (Other n) = True"

section \<open>Stripping the qualifiers\<close>

lemma replacePropTypes_id: "\<not> hasPropTypes s \<Longrightarrow> replacePropTypes s = s"
  by (induction s) auto

lemma replaceIsRequired_id: "\<not> hasIsRequired s \<Longrightarrow> replaceIsRequired s = s"
  by (induction s) auto

lemma shortifyPropTypes_id:
  "\<not> hasPropTypes s \<Longrightarrow> \<not> hasIsRequired s \<Longrightarrow> shortifyPropTypes s = s"
  by (simp add: shortifyPropTypes_def replacePropTypes_id replaceIsRequired_id)

lemmas match_defs = matchPropTypes_def matchIsRequired_def lineTerminator_def

lemma length_replacePropTypes:
  "length (replacePropTypes s) \<le> length s
   \<and> (hasPropTypes s \<longrightarrow> length (replacePropTypes s) < length s)"
proof (induction s rule: replacePropTypes.induct)
  case 1
  show ?case by simp
next
  case (2 c cs)
  show ?case
  proof (cases rule: case_split [of "matchPropTypes (c # cs)"])
    case True
    with 2 have "length (replacePropTypes (drop 9 cs)) \<le> length (drop 9 cs)" by simp
    then have "length (replacePropTypes (drop 9 cs)) \<le> length cs" by simp
    with True show ?thesis by simp
  next
    case False
    with 2 show ?thesis by simp
  qed
qed

lemma length_replaceIsRequired:
  "length (replaceIsRequired s) \<le> length s
   \<and> (hasIsRequired s \<longrightarrow> length (replaceIsRequired s) < length s)"
proof (induction s rule: replaceIsRequired.induct)
  case 1
  show ?case by simp
next
  case (2 c cs)
  show ?case
  proof (cases rule: case_split [of "matchIsRequired (c # cs)"])
    case True
    with 2 have "length (replaceIsRequired (drop 10 cs)) \<le> length (drop 10 cs)" by simp
    then have "length (replaceIsRequired (drop 10 cs)) \<le> length cs" by simp
    with True show ?thesis by simp
  next
    case False
    with 2 show ?thesis by simp
  qed
qed

lemma shortifyPropTypes_fixed:
  assumes "shortifyPropTypes s = s"
  shows "\<not> hasPropTypes s \<and> \<not> hasIsRequired s"
proof -
  let ?p = "replacePropTypes s"
  from assms have l: "length (replaceIsRequired ?p) = length s"
    by (simp add: shortifyPropTypes_def)
  have a: "length (replaceIsRequired ?p) \<le> length ?p"
    using length_replaceIsRequired [of ?p] by simp
  have b: "length ?p \<le> length s" using length_replacePropTypes [of s] by simp
  from l a b have lp: "length ?p = length s" by simp
  with length_replacePropTypes [of s] have np: "\<not> hasPropTypes s" by auto
  then have p: "?p = s" by (rule replacePropTypes_id)
  with l length_replaceIsRequired [of s] have "\<not> hasIsRequired s" by auto
  with np show ?thesis by simp
qed

text \<open>
  C4, as the code has it: \<open>shortifyPropTypes\<close> makes one pass for each pattern and is not
  idempotent: the text around a removed token can close up to a new token. The strings it
  returns unchanged are exactly those that hold no match of \<open>/PropTypes./\<close> and none of
  \<open>/.isRequired/\<close>; so stripping a stripped string again changes nothing exactly when the
  stripped string holds no match.
\<close>

theorem shortifyPropTypes_fixes_clean:
  "(\<not> hasPropTypes s \<and> \<not> hasIsRequired s \<longrightarrow> shortifyPropTypes s = s)
   \<and> (shortifyPropTypes s = s \<longrightarrow> \<not> hasPropTypes s \<and> \<not> hasIsRequired s)
   \<and> (shortifyPropTypes (shortifyPropTypes s) = shortifyPropTypes s \<longleftrightarrow>
        \<not> hasPropTypes (shortifyPropTypes s) \<and> \<not> hasIsRequired (shortifyPropTypes s))"
  using shortifyPropTypes_id [of s] shortifyPropTypes_fixed [of s]
    shortifyPropTypes_id [of "shortifyPropTypes s"]
    shortifyPropTypes_fixed [of "shortifyPropTypes s"]
  by blast

theorem shortifyPropTypes_fixes_clean_witness:
  "\<not> hasPropTypes ''shape({ a: string })'' \<and> \<not> hasIsRequired ''shape({ a: string })''
   \<and> shortifyPropTypes ''shape({ a: string })'' = ''shape({ a: string })''
   \<and> shortifyPropTypes ''PropTypes.string.isRequired'' = ''string''
   \<and> \<not> hasPropTypes ''string'' \<and> \<not> hasIsRequired ''string''
   \<and> shortifyPropTypes (shortifyPropTypes ''PropTypes.string.isRequired'') = ''string''
   \<and> hasPropTypes ''PropTypes.string.isRequired''
   \<and> shortifyPropTypes ''PropTypes.string.isRequired'' \<noteq> ''PropTypes.string.isRequired''"
proof -
  have a: "\<not> hasPropTypes ''shape({ a: string })'' \<and> \<not> hasIsRequired ''shape({ a: string })''"
    by (simp add: match_defs)
  have b: "\<not> hasPropTypes ''string'' \<and> \<not> hasIsRequired ''string''"
    by (simp add: match_defs)
  have c: "shortifyPropTypes ''PropTypes.string.isRequired'' = ''string''"
    by (simp add: shortifyPropTypes_def match_defs)
  have d: "hasPropTypes ''PropTypes.string.isRequired''"
    by (simp add: match_defs)
  from a shortifyPropTypes_fixes_clean [of "''shape({ a: string })''"]
  have e: "shortifyPropTypes ''shape({ a: string })'' = ''shape({ a: string })''" by blast
  from b shortifyPropTypes_fixes_clean [of "''string''"]
  have f: "shortifyPropTypes ''string'' = ''string''" by blast
  from d shortifyPropTypes_fixes_clean [of "''PropTypes.string.isRequired''"]
  have g: "shortifyPropTypes ''PropTypes.string.isRequired'' \<noteq> ''PropTypes.string.isRequired''"
    by blast
  from a b c d e f g show ?thesis by simp
qed

text \<open>
  The claim as stated fails: stripping \<open>PropTyPropTypes.pes.\<close> gives \<open>PropTypes.\<close>, and
  stripping that gives the empty string.
\<close>

theorem shortifyPropTypes_not_idempotent:
  "shortifyPropTypes ''PropTyPropTypes.pes.'' = ''PropTypes.''
   \<and> shortifyPropTypes (shortifyPropTypes ''PropTyPropTypes.pes.'') = []
   \<and> shortifyPropTypes (shortifyPropTypes ''PropTyPropTypes.pes.'')
       \<noteq> shortifyPropTypes ''PropTyPropTypes.pes.''"
  by (simp add: shortifyPropTypes_def match_defs)

section \<open>Basic facts about the formatter\<close>

lemmas kind_defs = CUSTOM_def FUNC_def SHAPE_def INSTANCEOF_def OBJECTOF_def UNION_def
  ENUM_def ARRAYOF_def

lemma createTypeDef_sel [simp]:
  "name (createTypeDef n c v i) = n"
  "caption (createTypeDef n c v i) = c"
  "val (createTypeDef n c v i) = (if v \<noteq> None then v else c)"
  "inferedType (createTypeDef n c v i) = i"
  by (simp_all add: createTypeDef_def)

lemma tryCatch_simps [simp]:
  "tryCatch (Inl e) = unknownTypeDef"
  "tryCatch (Inr r) = r"
  by (simp_all add: tryCatch_def)

lemma unknownTypeDef_sel [simp]:
  "name unknownTypeDef = ''unknown''"
  "caption unknownTypeDef = Some ''unknown''"
  "val unknownTypeDef = Some ''unknown''"
  "inferedType unknownTypeDef = None"
  by (simp_all add: unknownTypeDef_def)

text \<open>A formatted type without a value has no caption either.\<close>

lemma generateCustom_val: "generateCustom iv raw = Inr r \<Longrightarrow> val r \<noteq> None"
  by (auto simp: generateCustom_def Let_def split: option.splits sum.splits)

lemma generateFunc_val: "generateFunc ep = Inr r \<Longrightarrow> val r \<noteq> None"
  by (auto simp: generateFunc_def Let_def split: option.splits sum.splits if_splits)

lemma generateShape_val: "generateShape gen v = Inr r \<Longrightarrow> val r \<noteq> None"
  by (auto simp: generateShape_def Let_def split: option.splits)

lemma generateObjectOf_val: "generateObjectOf gen v = Inr r \<Longrightarrow> val r \<noteq> None"
  by (auto simp: generateObjectOf_def Let_def split: sum.splits)

lemma generateArray_val: "generateArray gen v = Inr r \<Longrightarrow> val r \<noteq> None"
  by (auto simp: generateArray_def arrayFallback_def Let_def split: option.splits if_splits)

lemma generateUnion_val:
  "generateUnion gen v = Inr r \<Longrightarrow> val r = None \<Longrightarrow> name r = UNION \<and> caption r = None"
  by (auto simp: generateUnion_def Let_def split: members.splits if_splits)

lemma generateEnum_val:
  "generateEnum iv v = Inr r \<Longrightarrow> val r = None \<Longrightarrow> name r = ENUM \<and> caption r = None"
  by (auto simp: generateEnum_def Let_def split: members.splits sum.splits if_splits)

lemma tryCatch_val:
  assumes "\<And>r. g = Inr r \<Longrightarrow> val r \<noteq> None"
  shows "val (tryCatch g) \<noteq> None"
  using assms by (cases g) auto

lemma tryCatch_val_None:
  assumes "val (tryCatch g) = None"
  obtains r where "g = Inr r" and "tryCatch g = r"
  using assms by (cases g) auto

lemma generateType_val_None:
  assumes "val (generateType iv ep t) = None"
  shows "caption (generateType iv ep t) = None
         \<and> name (generateType iv ep t) \<in> {INSTANCEOF, UNION, ENUM}"
proof (cases t)
  case (Custom raw)
  have "val (tryCatch (generateCustom iv raw)) \<noteq> None"
    by (rule tryCatch_val) (erule generateCustom_val)
  with assms Custom show ?thesis by simp
next
  case Func
  have "val (tryCatch (generateFunc ep)) \<noteq> None"
    by (rule tryCatch_val) (erule generateFunc_val)
  with assms Func show ?thesis by simp
next
  case (Shape v)
  have "val (tryCatch (generateShape (generateType iv ep) v)) \<noteq> None"
    by (rule tryCatch_val) (erule generateShape_val)
  with assms Shape show ?thesis by simp
next
  case (InstanceOf v)
  with assms show ?thesis by (auto split: if_splits)
next
  case (ObjectOf v)
  have "val (tryCatch (generateObjectOf (generateType iv ep) v)) \<noteq> None"
    by (rule tryCatch_val) (erule generateObjectOf_val)
  with assms ObjectOf show ?thesis by simp
next
  case (Union v)
  let ?g = "generateUnion (generateType iv ep) v"
  from assms Union have "val (tryCatch ?g) = None" by simp
  then obtain r where r: "?g = Inr r" "tryCatch ?g = r"
    by (rule tryCatch_val_None)
  from r assms Union have "val r = None" by simp
  with r(1) have "name r = UNION \<and> caption r = None" by (rule generateUnion_val)
  with r(2) Union show ?thesis by simp
next
  case (Enum v)
  let ?g = "generateEnum iv v"
  from assms Enum have "val (tryCatch ?g) = None" by simp
  then obtain r where r: "?g = Inr r" "tryCatch ?g = r"
    by (rule tryCatch_val_None)
  from r assms Enum have "val r = None" by simp
  with r(1) have "name r = ENUM \<and> caption r = None" by (rule generateEnum_val)
  with r(2) Enum show ?thesis by simp
next
  case (ArrayOf v)
  have "val (tryCatch (generateArray (generateType iv ep) v)) \<noteq> None"
    by (rule tryCatch_val) (erule generateArray_val)
  with assms ArrayOf show ?thesis by simp
next
  case (Other n)
  with assms show ?thesis by simp
qed

lemma generateType_caption_val:
  assumes "caption (generateType iv ep t) \<noteq> None"
  shows "val (generateType iv ep t) \<noteq> None"
proof
  assume "val (generateType iv ep t) = None"
  then have "caption (generateType iv ep t) = None"
    by (rule generateType_val_None [THEN conjunct1])
  with assms show False by simp
qed

lemma generateType_SHAPE_val:
  assumes "name (generateType iv ep t) = SHAPE"
  shows "\<exists>x. val (generateType iv ep t) = Some x"
proof (cases rule: option.exhaust [of "val (generateType iv ep t)"])
  case None
  then have "name (generateType iv ep t) \<in> {INSTANCEOF, UNION, ENUM}"
    by (rule generateType_val_None [THEN conjunct2])
  with assms show ?thesis by (simp add: kind_defs)
next
  case (Some x)
  then show ?thesis by simp
qed

section \<open>Shapes\<close>

lemma joinStr_renderFields:
  "joinStr '', '' (map (\<lambda>(k, t). k @ '': '' @ f t) fs) = renderFields (map (\<lambda>(k, t). (k, f t)) fs)"
  by (induction fs rule: induct_list012) (auto split: prod.splits)

lemma generateShape_Some:
  "generateShape (generateType iv ep) (Some fs) =
     Inr \<lparr>name = SHAPE,
          caption = Some (if length (shapeString iv ep (objectEntries fs)) \<le> 35
                          then shapeString iv ep (objectEntries fs) else ''object''),
          val = Some (shapeString iv ep (objectEntries fs)),
          inferedType = None\<rparr>"
proof -
  have "joinStr '', '' (map (\<lambda>(k, t). k @ '': '' @ jsString (val (generateType iv ep t)))
                          (objectEntries fs))
        = renderFields (map (\<lambda>(k, t). (k, jsString (val (generateType iv ep t))))
                          (objectEntries fs))"
    by (rule joinStr_renderFields)
  then show ?thesis
    by (simp add: generateShape_def shapeString_def createTypeDef_def MAX_CAPTION_LENGTH_def
        Let_def)
qed

lemma objectEntries_no_index:
  assumes "list_all (\<lambda>(k, t). \<not> isArrayIndex k) fs"
  shows "objectEntries fs = fs"
proof -
  from assms have "filter (\<lambda>(k, t). isArrayIndex k) fs = []"
    by (auto simp: filter_empty_conv list_all_iff)
  moreover from assms have "filter (\<lambda>(k, t). \<not> isArrayIndex k) fs = fs"
    by (auto simp: list_all_iff intro: filter_True)
  ultimately show ?thesis by (simp add: objectEntries_def)
qed

lemma filter_index_objectEntries:
  "filter (\<lambda>(k, t). isArrayIndex k) (objectEntries fs) =
     sort_key (\<lambda>(k, t). decimal k) (filter (\<lambda>(k, t). isArrayIndex k) fs)"
proof -
  have "filter (\<lambda>(k, t). isArrayIndex k)
          (sort_key (\<lambda>(k, t). decimal k) (filter (\<lambda>(k, t). isArrayIndex k) fs)) =
        sort_key (\<lambda>(k, t). decimal k) (filter (\<lambda>(k, t). isArrayIndex k) fs)"
    by (rule filter_True) auto
  then show ?thesis by (auto simp: objectEntries_def filter_empty_conv)
qed

lemma filter_other_objectEntries:
  "filter (\<lambda>(k, t). \<not> isArrayIndex k) (objectEntries fs) =
     filter (\<lambda>(k, t). \<not> isArrayIndex k) fs"
proof -
  have "filter (\<lambda>(k, t). \<not> isArrayIndex k)
          (sort_key (\<lambda>(k, t). decimal k) (filter (\<lambda>(k, t). isArrayIndex k) fs)) = []"
    by (auto simp: filter_empty_conv)
  then show ?thesis by (simp add: objectEntries_def)
qed

lemmas index_defs = objectEntries_def isArrayIndex_def isDigit_def decimal_def

text \<open>
  C2, as the code has it: a shape with its fields is formatted to the brace-wrapped string
  of its fields, each field with the value of its formatted descriptor. The fields stand
  in the order in which \<open>Object.keys\<close> lists them: the same fields, those whose name is an
  array index first, in ascending numeric order, then the others in the order of their
  declaration; so in the order of their declaration when no name is an array index. The
  caption is that string when it has at most 35 code units and \<open>object\<close> otherwise, the
  value is the string whatever its length.
\<close>

theorem generateType_Shape:
  "generateType iv ep (Shape (Some fs)) =
     \<lparr>name = SHAPE,
      caption = Some (if length (shapeString iv ep (objectEntries fs)) \<le> 35
                      then shapeString iv ep (objectEntries fs) else ''object''),
      val = Some (shapeString iv ep (objectEntries fs)),
      inferedType = None\<rparr>
   \<and> mset (objectEntries fs) = mset fs
   \<and> objectEntries fs =
       filter (\<lambda>(k, t). isArrayIndex k) (objectEntries fs)
       @ filter (\<lambda>(k, t). \<not> isArrayIndex k) fs
   \<and> sorted (map (\<lambda>(k, t). decimal k) (filter (\<lambda>(k, t). isArrayIndex k) (objectEntries fs)))
   \<and> (list_all (\<lambda>(k, t). \<not> isArrayIndex k) fs \<longrightarrow>
        generateType iv ep (Shape (Some fs)) =
          \<lparr>name = SHAPE,
           caption = Some (if length (shapeString iv ep fs) \<le> 35 then shapeString iv ep fs
                           else ''object''),
           val = Some (shapeString iv ep fs),
           inferedType = None\<rparr>)"
proof (intro conjI impI)
  show "mset (objectEntries fs) = mset fs"
    by (simp add: objectEntries_def)
next
  show "objectEntries fs =
       filter (\<lambda>(k, t). isArrayIndex k) (objectEntries fs)
       @ filter (\<lambda>(k, t). \<not> isArrayIndex k) fs"
    unfolding filter_index_objectEntries by (simp add: objectEntries_def)
next
  show "sorted (map (\<lambda>(k, t). decimal k) (filter (\<lambda>(k, t). isArrayIndex k) (objectEntries fs)))"
    unfolding filter_index_objectEntries by simp
next
  assume "list_all (\<lambda>(k, t). \<not> isArrayIndex k) fs"
  then have "objectEntries fs = fs" by (rule objectEntries_no_index)
  then show "generateType iv ep (Shape (Some fs)) =
          \<lparr>name = SHAPE,
           caption = Some (if length (shapeString iv ep fs) \<le> 35 then shapeString iv ep fs
                           else ''object''),
           val = Some (shapeString iv ep fs),
           inferedType = None\<rparr>"
    by (simp add: generateShape_Some)
qed (simp add: generateShape_Some)

theorem generateType_Shape_witness:
  "list_all (\<lambda>(k, t). \<not> isArrayIndex k) [(''a'', Other ''string''), (''b'', Other ''number'')]
   \<and> generateType (\<lambda>s. Inr STRING) \<lparr>docgenType = Func, jsDocTags = None\<rparr>
        (Shape (Some [(''a'', Other ''string''), (''b'', Other ''number'')])) =
        \<lparr>name = ''shape'', caption = Some ''{ a: string, b: number }'',
         val = Some ''{ a: string, b: number }'', inferedType = None\<rparr>"
proof -
  let ?fs = "[(''a'', Other ''string''), (''b'', Other ''number'')]"
  have h: "list_all (\<lambda>(k, t). \<not> isArrayIndex k) ?fs"
    by (simp add: index_defs)
  have s: "shapeString (\<lambda>s. Inr STRING) \<lparr>docgenType = Func, jsDocTags = None\<rparr> ?fs
             = ''{ a: string, b: number }''"
    by (simp add: shapeString_def)
  note generateType_Shape [of "\<lambda>s. Inr STRING" "\<lparr>docgenType = Func, jsDocTags = None\<rparr>" ?fs,
      THEN conjunct2, THEN conjunct2, THEN conjunct2, THEN conjunct2, THEN mp, OF h]
  then have "generateType (\<lambda>s. Inr STRING) \<lparr>docgenType = Func, jsDocTags = None\<rparr>
        (Shape (Some ?fs)) =
        \<lparr>name = ''shape'', caption = Some ''{ a: string, b: number }'',
         val = Some ''{ a: string, b: number }'', inferedType = None\<rparr>"
    unfolding s by (simp add: kind_defs)
  with h show ?thesis by simp
qed

text \<open>
  The claim as stated fails: a shape declared with the fields \<open>b\<close>, \<open>1\<close>, \<open>a\<close> is formatted
  with \<open>1\<close> first, not in the order of the declaration.
\<close>

theorem generateType_Shape_not_declaration_order:
  "val (generateType (\<lambda>s. Inr STRING) \<lparr>docgenType = Func, jsDocTags = None\<rparr>
         (Shape (Some [(''b'', Other ''string''), (''1'', Other ''number''),
                       (''a'', Other ''bool'')]))) =
     Some ''{ 1: number, b: string, a: bool }''
   \<and> shapeString (\<lambda>s. Inr STRING) \<lparr>docgenType = Func, jsDocTags = None\<rparr>
         [(''b'', Other ''string''), (''1'', Other ''number''), (''a'', Other ''bool'')] =
     ''{ b: string, 1: number, a: bool }''
   \<and> val (generateType (\<lambda>s. Inr STRING) \<lparr>docgenType = Func, jsDocTags = None\<rparr>
         (Shape (Some [(''b'', Other ''string''), (''1'', Other ''number''),
                       (''a'', Other ''bool'')]))) \<noteq>
     Some ''{ b: string, 1: number, a: bool }''"
proof -
  have e: "objectEntries [(''b'', Other ''string''), (''1'', Other ''number''),
                          (''a'', Other ''bool'')] =
           [(''1'', Other ''number''), (''b'', Other ''string''), (''a'', Other ''bool'')]"
    by (simp add: index_defs)
  show ?thesis by (simp add: generateShape_Some e shapeString_def)
qed

text \<open>
  C5: an array of a shape has the value of the shape between \<open>[\<close> and \<open>]\<close>, so that
  dropping the first and the last code unit gives the value of the shape back; its caption
  is that bracketed value when the value of the shape has at most 35 code units, and the
  caption of the shape followed by \<open>[]\<close> otherwise.
\<close>

theorem generateType_ArrayOf_Shape:
  "\<exists>sv sc w.
     val (generateType iv ep (Shape (Some fs))) = Some sv
     \<and> caption (generateType iv ep (Shape (Some fs))) = Some sc
     \<and> generateType iv ep (ArrayOf (Some (Shape (Some fs)))) =
         \<lparr>name = ARRAYOF,
          caption = Some (if length sv \<le> 35 then ''['' @ sv @ '']'' else sc @ ''[]''),
          val = Some w, inferedType = None\<rparr>
     \<and> w = ''['' @ sv @ '']'' \<and> butlast (tl w) = sv"
  by (simp add: generateShape_Some generateArray_def generateNested_def createTypeDef_def
      braceAround_def braceAfter_def MAX_CAPTION_LENGTH_def kind_defs butlast_append)

section \<open>Maps of objects\<close>

lemma generateObjectOf_result:
  assumes "name r = SHAPE \<Longrightarrow> \<exists>x. val r = Some x"
    and "generateNested gen v = r"
  shows "generateObjectOf gen v =
     Inr \<lparr>name = OBJECTOF,
          caption = Some (''objectOf('' @ jsString (nestedCaption r) @ '')''),
          val = Some (''objectOf('' @ jsString (val r) @ '')''),
          inferedType = None\<rparr>"
proof (cases rule: case_split [of "name r = CUSTOM"])
  case True
  then have "name r \<noteq> SHAPE" by (simp add: kind_defs)
  with True assms(2) show ?thesis
    by (cases rule: option.exhaust [of "inferedType r"])
      (auto simp: generateObjectOf_def nestedCaption_def createTypeDef_def formatObjectOf_def
        Let_def)
next
  case False
  show ?thesis
  proof (cases rule: case_split [of "name r = SHAPE"])
    case True
    with assms(1) obtain x where "val r = Some x" by blast
    with True False assms(2) show ?thesis
      by (simp add: generateObjectOf_def nestedCaption_def createTypeDef_def
          formatObjectOf_def MAX_CAPTION_LENGTH_def Let_def)
  next
    case notShape: False
    with False assms(2) show ?thesis
      by (simp add: generateObjectOf_def nestedCaption_def createTypeDef_def
          formatObjectOf_def Let_def)
  qed
qed

text \<open>
  C6: a map of objects wraps the caption and the value of its formatted nested type as
  \<open>objectOf(...)\<close>. The caption wrapped is the display name of the inferred kind when the
  nested type is a custom one whose inferred kind is neither \<open>STRING\<close> nor \<open>OBJECT\<close>, the
  full value when the nested type is a shape whose value has at most 35 code units, and
  the nested caption otherwise. A custom type with raw text \<open>PropTypes.string\<close> and inferred
  kind \<open>STRING\<close> gives \<open>objectOf(PropTypes.string)\<close> as caption and as value.
\<close>

theorem generateType_ObjectOf:
  "generateType iv ep (ObjectOf (Some t)) =
     \<lparr>name = OBJECTOF,
      caption = Some (''objectOf('' @ jsString (nestedCaption (generateType iv ep t)) @ '')''),
      val = Some (''objectOf('' @ jsString (val (generateType iv ep t)) @ '')''),
      inferedType = None\<rparr>
   \<and> (iv ''PropTypes.string'' = Inr STRING \<longrightarrow>
        generateType iv ep (ObjectOf (Some (Custom (Some ''PropTypes.string'')))) =
          \<lparr>name = OBJECTOF, caption = Some ''objectOf(PropTypes.string)'',
           val = Some ''objectOf(PropTypes.string)'', inferedType = None\<rparr>)"
proof (intro conjI impI)
  have "generateNested (generateType iv ep) (Some t) = generateType iv ep t"
    by (simp add: generateNested_def)
  with generateType_SHAPE_val
  have "generateObjectOf (generateType iv ep) (Some t) =
     Inr \<lparr>name = OBJECTOF,
          caption = Some (''objectOf('' @ jsString (nestedCaption (generateType iv ep t)) @ '')''),
          val = Some (''objectOf('' @ jsString (val (generateType iv ep t)) @ '')''),
          inferedType = None\<rparr>"
    by (rule generateObjectOf_result)
  then show "generateType iv ep (ObjectOf (Some t)) =
     \<lparr>name = OBJECTOF,
      caption = Some (''objectOf('' @ jsString (nestedCaption (generateType iv ep t)) @ '')''),
      val = Some (''objectOf('' @ jsString (val (generateType iv ep t)) @ '')''),
      inferedType = None\<rparr>"
    by simp
next
  assume "iv ''PropTypes.string'' = Inr STRING"
  then show "generateType iv ep (ObjectOf (Some (Custom (Some ''PropTypes.string'')))) =
          \<lparr>name = OBJECTOF, caption = Some ''objectOf(PropTypes.string)'',
           val = Some ''objectOf(PropTypes.string)'', inferedType = None\<rparr>"
    by (simp add: generateObjectOf_def generateNested_def generateCustom_def createTypeDef_def
        formatObjectOf_def MAX_CAPTION_LENGTH_def kind_defs Let_def)
qed

theorem generateType_ObjectOf_witness:
  "(\<lambda>s. Inr STRING) ''PropTypes.string'' = (Inr STRING :: error + InspectionType)
   \<and> generateType (\<lambda>s. Inr STRING) \<lparr>docgenType = Func, jsDocTags = None\<rparr>
        (ObjectOf (Some (Custom (Some ''PropTypes.string'')))) =
          \<lparr>name = OBJECTOF, caption = Some ''objectOf(PropTypes.string)'',
           val = Some ''objectOf(PropTypes.string)'', inferedType = None\<rparr>"
  using generateType_ObjectOf [of "\<lambda>s. Inr STRING" "\<lparr>docgenType = Func, jsDocTags = None\<rparr>" Func]
  by simp

section \<open>Functions\<close>

lemma joinStr_paramList: "joinStr '', '' (map funcParam xs) = paramList xs"
  by (induction xs rule: induct_list012)
    (auto simp: funcParam_def paramText_def split: option.splits)

lemma generateFunc_result:
  "generateFunc ep =
     Inr (createTypeDef FUNC (Some ''func'')
            (if documented ep then Some (docSignature ep) else None) None)"
proof (cases rule: option.exhaust [of "jsDocTags ep"])
  case None
  then show ?thesis by (simp add: generateFunc_def documented_def)
next
  case (Some tags)
  then show ?thesis
    by (cases rule: option.exhaust [of "params tags"];
        cases rule: option.exhaust [of "returns tags"])
      (simp_all add: generateFunc_def generateFuncSignature_def documented_def docSignature_def
        funcSignature_def joinStr_paramList)
qed

text \<open>
  C7: the caption of a function is always \<open>func\<close>. When the property documents parameters
  or a return type, the value is the signature; otherwise no value is given, so that the
  value is the caption. Two parameters \<open>x: number\<close> and \<open>y\<close> with the return type
  \<open>string\<close> give \<open>(x: number, y) => string\<close>.
\<close>

theorem generateType_Func:
  "generateFunc ep =
     Inr (createTypeDef FUNC (Some ''func'')
            (if documented ep then Some (docSignature ep) else None) None)
   \<and> generateType iv ep Func =
       \<lparr>name = FUNC, caption = Some ''func'',
        val = Some (if documented ep then docSignature ep else ''func''),
        inferedType = None\<rparr>
   \<and> val (generateType iv
            (ep\<lparr>jsDocTags := Some \<lparr>params = Some [\<lparr>prettyName = ''x'', typeName = Some ''number''\<rparr>,
                                                  \<lparr>prettyName = ''y'', typeName = None\<rparr>],
                                   returns = Some ''string''\<rparr>\<rparr>) Func)
       = Some ''(x: number, y) => string''"
  by (simp add: generateFunc_result createTypeDef_def documented_def docSignature_def
      funcSignature_def paramText_def)

theorem generateType_Func_witness:
  "documented \<lparr>docgenType = Func,
                jsDocTags = Some \<lparr>params = None, returns = Some ''void''\<rparr>\<rparr>
   \<and> generateType (\<lambda>s. Inr STRING)
        \<lparr>docgenType = Func, jsDocTags = Some \<lparr>params = None, returns = Some ''void''\<rparr>\<rparr> Func =
        \<lparr>name = FUNC, caption = Some ''func'', val = Some ''() => void'', inferedType = None\<rparr>
   \<and> \<not> documented \<lparr>docgenType = Func, jsDocTags = None\<rparr>
   \<and> generateType (\<lambda>s. Inr STRING) \<lparr>docgenType = Func, jsDocTags = None\<rparr> Func =
        \<lparr>name = FUNC, caption = Some ''func'', val = Some ''func'', inferedType = None\<rparr>"
proof -
  let ?iv = "\<lambda>s. Inr STRING :: error + InspectionType"
  let ?e1 = "\<lparr>docgenType = Func, jsDocTags = Some \<lparr>params = None, returns = Some ''void''\<rparr>\<rparr>"
  let ?e2 = "\<lparr>docgenType = Func, jsDocTags = None\<rparr>"
  have h1: "documented ?e1" by (simp add: documented_def)
  have h2: "\<not> documented ?e2" by (simp add: documented_def)
  have s: "docSignature ?e1 = ''() => void''"
    by (simp add: docSignature_def funcSignature_def)
  from h1 h2 s generateType_Func [of ?e1 ?iv] generateType_Func [of ?e2 ?iv]
  show ?thesis by simp
qed

section \<open>Unions and enums\<close>

lemma foldl_unionStep:
  "foldl (unionStep gen) (cs, vs) ts =
     (cs @ map (\<lambda>t. caption (gen t)) ts, vs @ map (\<lambda>t. val (gen t)) ts)"
  by (induction ts arbitrary: cs vs) (simp_all add: unionStep_def Let_def)

lemma generateUnion_Members:
  "generateUnion gen (Members ts) =
     Inr \<lparr>name = UNION,
          caption = Some (join '' | '' (map (\<lambda>t. caption (gen t)) ts)),
          val = Some (join '' | '' (map (\<lambda>t. val (gen t)) ts)),
          inferedType = None\<rparr>"
  by (simp add: generateUnion_def foldl_unionStep createTypeDef_def)

lemma foldl_enumStep:
  "map (generateEnumValue iv) ms = map Inr rs \<Longrightarrow>
   foldl (enumStep iv) (Inr (cs, vs)) ms = Inr (cs @ map caption rs, vs @ map val rs)"
proof (induction ms arbitrary: rs cs vs)
  case Nil
  then show ?case by simp
next
  case (Cons m ms)
  from Cons.prems obtain r rs' where rs: "rs = r # rs'"
    and m: "generateEnumValue iv m = Inr r"
    and ms: "map (generateEnumValue iv) ms = map Inr rs'"
    by (cases rs) auto
  from m have "enumStep iv (Inr (cs, vs)) m = Inr (cs @ [caption r], vs @ [val r])"
    by (simp add: enumStep_def)
  with Cons.IH [OF ms] rs show ?case by simp
qed

lemma generateEnum_Members:
  "map (generateEnumValue iv) ms = map Inr rs \<Longrightarrow>
   generateEnum iv (Members ms) =
     Inr \<lparr>name = ENUM, caption = Some (join '' | '' (map caption rs)),
          val = Some (join '' | '' (map val rs)), inferedType = None\<rparr>"
  using foldl_enumStep [of iv ms rs "[]" "[]"]
  by (simp add: generateEnum_def createTypeDef_def)

lemma map_nth_map:
  "\<forall>i\<in>set is. i < length xs \<Longrightarrow> map f (map ((!) xs) is) = map ((!) (map f xs)) is"
  by (induction "is") simp_all

text \<open>
  C9: a union or an enum whose value is an array has as caption the captions of its
  formatted members joined by \<open> | \<close>, and as value their values joined by \<open> | \<close>, in the
  order of the array (for an enum: when every member formats, that is, the classifier
  returns on each computed member). So the members taken in another order, here by a list
  of indices, give the segments of the caption and of the value in that same order.
\<close>

theorem generateType_Union_Enum:
  "generateType iv ep (Union (Members ts)) =
     \<lparr>name = UNION,
      caption = Some (join '' | '' (map (\<lambda>t. caption (generateType iv ep t)) ts)),
      val = Some (join '' | '' (map (\<lambda>t. val (generateType iv ep t)) ts)),
      inferedType = None\<rparr>
   \<and> (map (generateEnumValue iv) ms = map Inr rs \<longrightarrow>
        generateType iv ep (Enum (Members ms)) =
          \<lparr>name = ENUM, caption = Some (join '' | '' (map caption rs)),
           val = Some (join '' | '' (map val rs)), inferedType = None\<rparr>)
   \<and> ((\<forall>i\<in>set is. i < length ts) \<longrightarrow>
        generateType iv ep (Union (Members (map ((!) ts) is))) =
          \<lparr>name = UNION,
           caption = Some (join '' | ''
                       (map ((!) (map (\<lambda>t. caption (generateType iv ep t)) ts)) is)),
           val = Some (join '' | '' (map ((!) (map (\<lambda>t. val (generateType iv ep t)) ts)) is)),
           inferedType = None\<rparr>)
   \<and> (map (generateEnumValue iv) ms = map Inr rs \<and> (\<forall>i\<in>set js. i < length ms) \<longrightarrow>
        generateType iv ep (Enum (Members (map ((!) ms) js))) =
          \<lparr>name = ENUM, caption = Some (join '' | '' (map ((!) (map caption rs)) js)),
           val = Some (join '' | '' (map ((!) (map val rs)) js)), inferedType = None\<rparr>)"
proof (intro conjI impI)
  show "generateType iv ep (Union (Members ts)) =
     \<lparr>name = UNION,
      caption = Some (join '' | '' (map (\<lambda>t. caption (generateType iv ep t)) ts)),
      val = Some (join '' | '' (map (\<lambda>t. val (generateType iv ep t)) ts)),
      inferedType = None\<rparr>"
    by (simp add: generateUnion_Members)
next
  assume "map (generateEnumValue iv) ms = map Inr rs"
  then show "generateType iv ep (Enum (Members ms)) =
          \<lparr>name = ENUM, caption = Some (join '' | '' (map caption rs)),
           val = Some (join '' | '' (map val rs)), inferedType = None\<rparr>"
    by (simp add: generateEnum_Members)
next
  assume a: "\<forall>i\<in>set is. i < length ts"
  then have c: "map (\<lambda>t. caption (generateType iv ep t)) (map ((!) ts) is) =
                map ((!) (map (\<lambda>t. caption (generateType iv ep t)) ts)) is"
    by (rule map_nth_map)
  from a have v: "map (\<lambda>t. val (generateType iv ep t)) (map ((!) ts) is) =
                  map ((!) (map (\<lambda>t. val (generateType iv ep t)) ts)) is"
    by (rule map_nth_map)
  show "generateType iv ep (Union (Members (map ((!) ts) is))) =
          \<lparr>name = UNION,
           caption = Some (join '' | ''
                       (map ((!) (map (\<lambda>t. caption (generateType iv ep t)) ts)) is)),
           val = Some (join '' | '' (map ((!) (map (\<lambda>t. val (generateType iv ep t)) ts)) is)),
           inferedType = None\<rparr>"
    unfolding generateType.simps generateUnion_Members c v by simp
next
  assume a: "map (generateEnumValue iv) ms = map Inr rs \<and> (\<forall>i\<in>set js. i < length ms)"
  then have len: "length rs = length ms" by (metis length_map)
  from a have nth: "\<And>i. i < length ms \<Longrightarrow> generateEnumValue iv (ms ! i) = Inr (rs ! i)"
    by (metis len nth_map)
  from a have "map (generateEnumValue iv) (map ((!) ms) js) = map Inr (map ((!) rs) js)"
    by (simp add: nth)
  then have g: "generateEnum iv (Members (map ((!) ms) js)) =
     Inr \<lparr>name = ENUM, caption = Some (join '' | '' (map caption (map ((!) rs) js))),
          val = Some (join '' | '' (map val (map ((!) rs) js))), inferedType = None\<rparr>"
    by (rule generateEnum_Members)
  from a len have b: "\<forall>i\<in>set js. i < length rs" by simp
  from b have c: "map caption (map ((!) rs) js) = map ((!) (map caption rs)) js"
    by (rule map_nth_map)
  from b have v: "map val (map ((!) rs) js) = map ((!) (map val rs)) js"
    by (rule map_nth_map)
  show "generateType iv ep (Enum (Members (map ((!) ms) js))) =
          \<lparr>name = ENUM, caption = Some (join '' | '' (map ((!) (map caption rs)) js)),
           val = Some (join '' | '' (map ((!) (map val rs)) js)), inferedType = None\<rparr>"
    unfolding generateType.simps g c v by simp
qed

theorem generateType_Union_Enum_witness:
  "map (generateEnumValue (\<lambda>s. Inr STRING))
       [\<lparr>enumText = ''x'', computed = False\<rparr>, \<lparr>enumText = ''y'', computed = True\<rparr>]
     = map Inr [createTypeDef ''enumvalue'' (Some ''x'') None None,
                createTypeDef ''enumvalue'' (Some ''string'') (Some ''y'') (Some STRING)]
   \<and> list_all (\<lambda>i. i < length [Other ''a'', Other ''b'']) [1, 0]
   \<and> generateType (\<lambda>s. Inr STRING) \<lparr>docgenType = Func, jsDocTags = None\<rparr>
        (Union (Members [Other ''b'', Other ''a''])) =
        \<lparr>name = UNION, caption = Some ''b | a'', val = Some ''b | a'', inferedType = None\<rparr>
   \<and> generateType (\<lambda>s. Inr STRING) \<lparr>docgenType = Func, jsDocTags = None\<rparr>
        (Enum (Members [\<lparr>enumText = ''x'', computed = False\<rparr>,
                        \<lparr>enumText = ''y'', computed = True\<rparr>])) =
        \<lparr>name = ENUM, caption = Some ''x | string'', val = Some ''x | y'', inferedType = None\<rparr>
   \<and> generateType (\<lambda>s. Inr STRING) \<lparr>docgenType = Func, jsDocTags = None\<rparr>
        (Enum (Members [\<lparr>enumText = ''y'', computed = True\<rparr>,
                        \<lparr>enumText = ''x'', computed = False\<rparr>])) =
        \<lparr>name = ENUM, caption = Some ''string | x'', val = Some ''y | x'', inferedType = None\<rparr>"
proof -
  let ?iv = "\<lambda>s. Inr STRING :: error + InspectionType"
  let ?ep = "\<lparr>docgenType = Func, jsDocTags = None\<rparr>"
  let ?ms = "[\<lparr>enumText = ''x'', computed = False\<rparr>, \<lparr>enumText = ''y'', computed = True\<rparr>]"
  let ?rs = "[createTypeDef ''enumvalue'' (Some ''x'') None None,
              createTypeDef ''enumvalue'' (Some ''string'') (Some ''y'') (Some STRING)]"
  have h1: "map (generateEnumValue ?iv) ?ms = map Inr ?rs"
    by (simp add: generateEnumValue_def generateComputedValue_def)
  have h2: "\<forall>i\<in>set [1, 0]. i < length [Other ''a'', Other ''b'']" by simp
  have h3: "\<forall>i\<in>set [1, 0]. i < length ?ms" by simp
  from h1 h2 h3
    generateType_Union_Enum [of ?iv ?ep "[Other ''a'', Other ''b'']" ?ms ?rs "[1, 0]" "[1, 0]"]
  show ?thesis
    by (simp add: join_def)
qed

text \<open>Two literal members \<open>'a'\<close> and \<open>'b'\<close>: caption and value are \<open>'a' | 'b'\<close>.\<close>

lemma enum_example:
  "generateType iv ep
     (Enum (Members [\<lparr>enumText = [CHR 0x27, CHR ''a'', CHR 0x27], computed = False\<rparr>,
                     \<lparr>enumText = [CHR 0x27, CHR ''b'', CHR 0x27], computed = False\<rparr>])) =
     \<lparr>name = ENUM,
      caption = Some ([CHR 0x27, CHR ''a'', CHR 0x27] @ '' | '' @ [CHR 0x27, CHR ''b'', CHR 0x27]),
      val = Some ([CHR 0x27, CHR ''a'', CHR 0x27] @ '' | '' @ [CHR 0x27, CHR ''b'', CHR 0x27]),
      inferedType = None\<rparr>"
  by (simp add: generateEnum_def enumStep_def generateEnumValue_def createTypeDef_def join_def)

section \<open>Arrays\<close>

lemma generateNested_val:
  assumes "generateNested (generateType iv ep) v = r" and "val r = None"
  shows "name r \<in> {INSTANCEOF, UNION, ENUM}"
proof (cases v)
  case None
  with assms show ?thesis by (simp add: generateNested_def)
next
  case (Some t)
  with assms have r: "r = generateType iv ep t" by (simp add: generateNested_def)
  from assms(2) show ?thesis unfolding r by (rule generateType_val_None [THEN conjunct2])
qed

lemma generateArray_result:
  assumes "generateNested (generateType iv ep) v = r"
  shows "generateArray (generateType iv ep) v =
     Inr (if name r = CUSTOM \<and> inferedType r = Some OBJECT \<or> name r = SHAPE
          then createTypeDef ARRAYOF
                 (Some (if length (jsString (val r)) \<le> 35 then ''['' @ jsString (val r) @ '']''
                        else if name r = SHAPE then jsString (caption r) @ ''[]''
                        else ''object[]''))
                 (Some (''['' @ jsString (val r) @ '']'')) None
          else createTypeDef ARRAYOF (Some (jsString (val r) @ ''[]'')) None None)"
proof (cases rule: option.exhaust [of "val r"])
  case None
  with assms have "name r \<in> {INSTANCEOF, UNION, ENUM}" by (rule generateNested_val)
  then have "name r \<noteq> CUSTOM" and "name r \<noteq> SHAPE" by (auto simp: kind_defs)
  with assms show ?thesis
    by (simp add: generateArray_def arrayFallback_def braceAfter_def Let_def)
next
  case (Some x)
  show ?thesis
  proof (cases rule: case_split [of "name r = CUSTOM"])
    case True
    then have "name r \<noteq> SHAPE" by (simp add: kind_defs)
    with True Some assms show ?thesis
      by (cases rule: option.exhaust [of "inferedType r"])
        (auto simp: generateArray_def arrayFallback_def braceAfter_def braceAround_def
          MAX_CAPTION_LENGTH_def Let_def)
  next
    case False
    with Some assms show ?thesis
      by (simp add: generateArray_def arrayFallback_def braceAfter_def braceAround_def
          MAX_CAPTION_LENGTH_def Let_def)
  qed
qed

lemma generateArray_Custom_other:
  assumes "iv raw = Inr k" and "k \<noteq> STRING" and "k \<noteq> OBJECT"
  shows "generateType iv ep (ArrayOf (Some (Custom (Some raw)))) =
     \<lparr>name = ARRAYOF, caption = Some (raw @ ''[]''), val = Some (raw @ ''[]''),
      inferedType = None\<rparr>"
proof -
  let ?r = "generateType iv ep (Custom (Some raw))"
  have n: "generateNested (generateType iv ep) (Some (Custom (Some raw))) = ?r"
    by (simp add: generateNested_def)
  from assms have r: "name ?r = CUSTOM" "inferedType ?r = Some k" "val ?r = Some raw"
    by (simp_all add: generateCustom_def)
  from r assms(3) show ?thesis
    unfolding generateType.simps(8) generateArray_result [OF n]
    by (simp add: createTypeDef_def kind_defs)
qed

text \<open>
  C3, on the code: for an array of a custom type whose inferred kind is neither \<open>STRING\<close>
  nor \<open>OBJECT\<close>, \<open>generateArray\<close> assigns the display name of the kind to its local
  caption and then returns through its last statement, which reads the value only. With
  the raw text \<open>() => {}\<close> and the inferred kind \<open>func\<close> the caption returned is
  \<open>() => {}[]\<close>, not the display name; \<open>generateObjectOf\<close> on the same nested type wraps
  the display name.
\<close>

theorem generateArray_Custom_caption_lost:
  "generateType (\<lambda>s. Inr (OTHER ''func'')) \<lparr>docgenType = Func, jsDocTags = None\<rparr>
     (ArrayOf (Some (Custom (Some ''() => {}'')))) =
     \<lparr>name = ARRAYOF, caption = Some ''() => {}[]'', val = Some ''() => {}[]'',
      inferedType = None\<rparr>
   \<and> caption (generateType (\<lambda>s. Inr (OTHER ''func'')) \<lparr>docgenType = Func, jsDocTags = None\<rparr>
        (ArrayOf (Some (Custom (Some ''() => {}''))))) \<noteq> Some (toString (OTHER ''func''))
   \<and> caption (generateType (\<lambda>s. Inr (OTHER ''func'')) \<lparr>docgenType = Func, jsDocTags = None\<rparr>
        (ObjectOf (Some (Custom (Some ''() => {}''))))) = Some ''objectOf(func)''"
proof -
  let ?iv = "\<lambda>s. Inr (OTHER ''func'') :: error + InspectionType"
  let ?ep = "\<lparr>docgenType = Func, jsDocTags = None\<rparr>"
  have a: "generateType ?iv ?ep (ArrayOf (Some (Custom (Some ''() => {}'')))) =
     \<lparr>name = ARRAYOF, caption = Some (''() => {}'' @ ''[]''), val = Some (''() => {}'' @ ''[]''),
      inferedType = None\<rparr>"
    by (rule generateArray_Custom_other [where k = "OTHER ''func''"]) simp_all
  have b: "caption (generateType ?iv ?ep (ObjectOf (Some (Custom (Some ''() => {}'')))))
           = Some ''objectOf(func)''"
    by (simp add: generateObjectOf_def generateNested_def generateCustom_def createTypeDef_def
        formatObjectOf_def kind_defs Let_def)
  show ?thesis unfolding a b by simp
qed

section \<open>Faults and the fallback\<close>

lemma generateCustom_cases:
  "generateCustom iv None = Inr (createTypeDef CUSTOM (Some ''custom'') None None)"
  "isl (iv raw) \<Longrightarrow> isl (generateCustom iv (Some raw))"
  "\<not> isl (iv raw) \<Longrightarrow>
     \<exists>r. generateCustom iv (Some raw) = Inr r \<and> name r = CUSTOM"
  by (auto simp: generateCustom_def Let_def split: sum.splits)

lemma generateEnumValue_isl:
  "isl (generateEnumValue iv m) \<longleftrightarrow> computed m \<and> isl (iv (enumText m))"
  by (auto simp: generateEnumValue_def generateComputedValue_def split: sum.splits)

lemma foldl_enumStep_Inl: "foldl (enumStep iv) (Inl e) ms = Inl e"
  by (induction ms) (simp_all add: enumStep_def)

lemma foldl_enumStep_isl:
  "isl (foldl (enumStep iv) (Inr acc) ms) \<longleftrightarrow> list_ex (\<lambda>m. isl (generateEnumValue iv m)) ms"
proof (induction ms arbitrary: acc)
  case Nil
  then show ?case by simp
next
  case (Cons m ms)
  show ?case
  proof (cases rule: sum.exhaust [of "generateEnumValue iv m"])
    case (Inl e)
    then have "enumStep iv (Inr acc) m = Inl e"
      by (simp add: enumStep_def split: prod.splits)
    with Inl show ?thesis by (simp add: foldl_enumStep_Inl)
  next
    case (Inr r)
    then have "enumStep iv (Inr acc) m = Inr (fst acc @ [caption r], snd acc @ [val r])"
      by (simp add: enumStep_def split: prod.splits)
    with Inr Cons.IH show ?thesis by simp
  qed
qed

lemma generateEnum_isl:
  "isl (generateEnum iv (Members ms)) \<longleftrightarrow>
     list_ex (\<lambda>m. computed m \<and> isl (iv (enumText m))) ms"
proof -
  have "isl (generateEnum iv (Members ms)) \<longleftrightarrow> isl (foldl (enumStep iv) (Inr ([], [])) ms)"
    by (simp add: generateEnum_def split: sum.splits prod.splits)
  then show ?thesis by (simp add: foldl_enumStep_isl generateEnumValue_isl)
qed

lemma generateEnum_name: "generateEnum iv v = Inr r \<Longrightarrow> name r = ENUM"
  by (auto simp: generateEnum_def split: members.splits sum.splits prod.splits)

lemma tryCatch_isl: "isl g \<Longrightarrow> tryCatch g = unknownTypeDef"
  by (cases g) simp_all

lemma tryCatch_name:
  assumes "\<not> isl g" and "\<And>r. g = Inr r \<Longrightarrow> name r = n"
  shows "name (tryCatch g) = n"
  using assms by (cases g) simp_all

lemma generateType_raises:
  assumes "raises iv t"
  shows "generateType iv ep t = unknownTypeDef"
proof (cases t)
  case (Custom raw)
  with assms show ?thesis
    by (cases raw) (simp_all add: raises_def tryCatch_isl generateCustom_cases)
next
  case (Shape v)
  with assms show ?thesis
    by (cases v) (simp_all add: raises_def generateShape_def)
next
  case (Enum v)
  with assms show ?thesis
    by (cases v) (simp_all add: raises_def tryCatch_isl generateEnum_isl)
qed (use assms in \<open>simp_all add: raises_def\<close>)

lemma generateType_name:
  assumes "\<not> raises iv t"
  shows "name (generateType iv ep t) = propTypeName t"
proof (cases t)
  case (Custom raw)
  show ?thesis
  proof (cases raw)
    case None
    with Custom show ?thesis by (simp add: generateCustom_cases)
  next
    case (Some x)
    with assms Custom have "\<not> isl (iv x)" by (simp add: raises_def)
    then obtain r where "generateCustom iv (Some x) = Inr r" and "name r = CUSTOM"
      using generateCustom_cases(3) by blast
    with Custom Some show ?thesis by simp
  qed
next
  case Func
  then show ?thesis by (simp add: generateFunc_result)
next
  case (Shape v)
  with assms obtain fs where "v = Some fs" by (cases v) (simp_all add: raises_def)
  with Shape show ?thesis by (simp add: generateShape_Some)
next
  case (InstanceOf v)
  then show ?thesis by simp
next
  case (ObjectOf v)
  let ?r = "generateNested (generateType iv ep) v"
  have "\<exists>x. val ?r = Some x" if "name ?r = SHAPE"
  proof (cases rule: option.exhaust [of "val ?r"])
    case None
    with refl have "name ?r \<in> {INSTANCEOF, UNION, ENUM}" by (rule generateNested_val)
    with that show ?thesis by (simp add: kind_defs)
  next
    case (Some x)
    then show ?thesis by simp
  qed
  then have "generateObjectOf (generateType iv ep) v =
     Inr \<lparr>name = OBJECTOF,
          caption = Some (''objectOf('' @ jsString (nestedCaption ?r) @ '')''),
          val = Some (''objectOf('' @ jsString (val ?r) @ '')''),
          inferedType = None\<rparr>"
    using refl by (rule generateObjectOf_result)
  with ObjectOf show ?thesis by simp
next
  case (Union v)
  then show ?thesis
    by (cases v) (simp_all add: generateUnion_Members, simp add: generateUnion_def)
next
  case (Enum v)
  show ?thesis
  proof (cases v)
    case (Members ms)
    with assms Enum have "\<not> isl (generateEnum iv v)"
      by (simp add: raises_def generateEnum_isl)
    then have "name (tryCatch (generateEnum iv v)) = ENUM"
      by (rule tryCatch_name) (erule generateEnum_name)
    with Enum show ?thesis by simp
  next
    case (Scalar s)
    with Enum show ?thesis by (simp add: generateEnum_def)
  qed
next
  case (ArrayOf v)
  then show ?thesis
    by (simp add: generateArray_result [OF refl])
next
  case (Other n)
  then show ?thesis by simp
qed

text \<open>
  C1, as the code has it: \<open>generateType\<close> never throws. Where its dispatch throws (a shape
  without its value, a custom type or a computed enum member on which the classifier
  throws) it returns the fallback; on every other descriptor it returns a formatted type
  named after the kind. A descriptor of a kind without a case of its own is not a fault: it
  comes back with its name as caption and value. A missing value is a fault for a shape
  only: \<open>instanceOf\<close>, \<open>union\<close> and \<open>enum\<close> pass the missing value on as their caption,
  \<open>objectOf\<close> and \<open>arrayOf\<close> format the fallback as their nested type.
\<close>

theorem generateType_never_raises:
  "(raises iv t \<longrightarrow>
      generateType iv ep t =
        \<lparr>name = ''unknown'', caption = Some ''unknown'', val = Some ''unknown'',
         inferedType = None\<rparr>)
   \<and> (\<not> raises iv t \<longrightarrow> name (generateType iv ep t) = propTypeName t)
   \<and> (n \<notin> set handledKinds \<longrightarrow>
        generateType iv ep (Other n) =
          \<lparr>name = n, caption = Some n, val = Some n, inferedType = None\<rparr>)
   \<and> generateType iv ep (InstanceOf None) =
        \<lparr>name = INSTANCEOF, caption = None, val = None, inferedType = None\<rparr>
   \<and> generateType iv ep (Union (Scalar None)) =
        \<lparr>name = UNION, caption = None, val = None, inferedType = None\<rparr>
   \<and> generateType iv ep (Enum (Scalar None)) =
        \<lparr>name = ENUM, caption = None, val = None, inferedType = None\<rparr>
   \<and> generateType iv ep (ObjectOf None) =
        \<lparr>name = OBJECTOF, caption = Some ''objectOf(unknown)'',
         val = Some ''objectOf(unknown)'', inferedType = None\<rparr>
   \<and> generateType iv ep (ArrayOf None) =
        \<lparr>name = ARRAYOF, caption = Some ''unknown[]'', val = Some ''unknown[]'',
         inferedType = None\<rparr>"
proof (intro conjI impI)
  assume "raises iv t"
  then have "generateType iv ep t = unknownTypeDef" by (rule generateType_raises)
  then show "generateType iv ep t =
        \<lparr>name = ''unknown'', caption = Some ''unknown'', val = Some ''unknown'',
         inferedType = None\<rparr>"
    by (simp add: unknownTypeDef_def createTypeDef_def)
next
  assume "\<not> raises iv t"
  then show "name (generateType iv ep t) = propTypeName t" by (rule generateType_name)
next
  show "generateType iv ep (Other n) =
          \<lparr>name = n, caption = Some n, val = Some n, inferedType = None\<rparr>"
    by (simp add: createTypeDef_def)
next
  show "generateType iv ep (ObjectOf None) =
        \<lparr>name = OBJECTOF, caption = Some ''objectOf(unknown)'',
         val = Some ''objectOf(unknown)'', inferedType = None\<rparr>"
    by (simp add: generateObjectOf_def generateNested_def createTypeDef_def
        formatObjectOf_def kind_defs Let_def)
next
  show "generateType iv ep (ArrayOf None) =
        \<lparr>name = ARRAYOF, caption = Some ''unknown[]'', val = Some ''unknown[]'',
         inferedType = None\<rparr>"
    by (simp add: generateArray_def generateNested_def arrayFallback_def createTypeDef_def
        braceAfter_def kind_defs Let_def)
qed (simp_all add: createTypeDef_def generateUnion_def generateEnum_def)

theorem generateType_never_raises_witness:
  "raises (\<lambda>s. Inl InspectError) (Custom (Some ''PropTypes.string''))
   \<and> generateType (\<lambda>s. Inl InspectError) \<lparr>docgenType = Func, jsDocTags = None\<rparr>
        (Custom (Some ''PropTypes.string'')) =
        \<lparr>name = ''unknown'', caption = Some ''unknown'', val = Some ''unknown'',
         inferedType = None\<rparr>
   \<and> raises (\<lambda>s. Inl InspectError) (Shape None)
   \<and> generateType (\<lambda>s. Inl InspectError) \<lparr>docgenType = Func, jsDocTags = None\<rparr> (Shape None) =
        \<lparr>name = ''unknown'', caption = Some ''unknown'', val = Some ''unknown'',
         inferedType = None\<rparr>
   \<and> \<not> raises (\<lambda>s. Inl InspectError) (Custom None)
   \<and> name (generateType (\<lambda>s. Inl InspectError) \<lparr>docgenType = Func, jsDocTags = None\<rparr>
        (Custom None)) = ''custom''
   \<and> ''string'' \<notin> set handledKinds
   \<and> generateType (\<lambda>s. Inl InspectError) \<lparr>docgenType = Func, jsDocTags = None\<rparr>
        (Other ''string'') =
        \<lparr>name = ''string'', caption = Some ''string'', val = Some ''string'',
         inferedType = None\<rparr>"
proof -
  let ?iv = "\<lambda>s. Inl InspectError :: error + InspectionType"
  let ?ep = "\<lparr>docgenType = Func, jsDocTags = None\<rparr>"
  have h1: "raises ?iv (Custom (Some ''PropTypes.string''))" by (simp add: raises_def)
  have h2: "raises ?iv (Shape None)" by (simp add: raises_def)
  have h3: "\<not> raises ?iv (Custom None)" by (simp add: raises_def)
  have h4: "''string'' \<notin> set handledKinds" by (simp add: handledKinds_def kind_defs)
  from h1 h2 h3 h4
    generateType_never_raises [of ?iv "Custom (Some ''PropTypes.string'')" ?ep "''string''"]
    generateType_never_raises [of ?iv "Shape None" ?ep "''string''"]
    generateType_never_raises [of ?iv "Custom None" ?ep "''string''"]
  show ?thesis by (simp add: kind_defs)
qed

text \<open>
  The claim as stated fails: a descriptor of the unrecognized kind \<open>string\<close> is returned
  under its own name, and an \<open>instanceOf\<close> without its value is returned without caption and
  value; neither is the fallback.
\<close>

theorem generateType_not_always_unknown:
  "generateType (\<lambda>s. Inr STRING) \<lparr>docgenType = Other ''string'', jsDocTags = None\<rparr>
     (Other ''string'') =
     \<lparr>name = ''string'', caption = Some ''string'', val = Some ''string'', inferedType = None\<rparr>
   \<and> generateType (\<lambda>s. Inr STRING) \<lparr>docgenType = Other ''string'', jsDocTags = None\<rparr>
       (Other ''string'') \<noteq>
       \<lparr>name = ''unknown'', caption = Some ''unknown'', val = Some ''unknown'',
        inferedType = None\<rparr>
   \<and> generateType (\<lambda>s. Inr STRING) \<lparr>docgenType = InstanceOf None, jsDocTags = None\<rparr>
       (InstanceOf None) \<noteq>
       \<lparr>name = ''unknown'', caption = Some ''unknown'', val = Some ''unknown'',
        inferedType = None\<rparr>"
  by (simp add: createTypeDef_def kind_defs)

section \<open>Rendering\<close>

lemma caption_val_differ:
  assumes "caption (generateType iv ep t) \<noteq> val (generateType iv ep t)"
  shows "val (generateType iv ep t) \<noteq> None"
proof
  assume v: "val (generateType iv ep t) = None"
  then have "caption (generateType iv ep t) = None"
    by (rule generateType_val_None [THEN conjunct1])
  with v assms show False by simp
qed

text \<open>
  C8: \<open>renderType\<close> renders the eight kinds with a case of their own and nothing for any
  other kind. For \<open>func\<close> it shows the value and no title. For the seven others it shows
  the caption; the title is the value when caption and value differ, and is absent when
  they are equal.
\<close>

theorem renderType_spec:
  "(renderType iv ep \<noteq> None \<longleftrightarrow> propTypeName (docgenType ep) \<in> set handledKinds)
   \<and> (propTypeName (docgenType ep) \<notin> set handledKinds \<longrightarrow> renderType iv ep = None)
   \<and> (propTypeName (docgenType ep) = FUNC \<longrightarrow>
        renderType iv ep =
          Some \<lparr>propText = val (generateType iv ep (docgenType ep)), title = None\<rparr>)
   \<and> (propTypeName (docgenType ep) \<in> set handledKinds \<and> propTypeName (docgenType ep) \<noteq> FUNC \<longrightarrow>
        (\<exists>ti. renderType iv ep =
                Some \<lparr>propText = caption (generateType iv ep (docgenType ep)), title = ti\<rparr>
              \<and> (ti \<noteq> None \<longleftrightarrow>
                   caption (generateType iv ep (docgenType ep))
                     \<noteq> val (generateType iv ep (docgenType ep)))
              \<and> (ti = None \<or> ti = val (generateType iv ep (docgenType ep)))))"
proof (intro conjI impI)
  show "renderType iv ep \<noteq> None \<longleftrightarrow> propTypeName (docgenType ep) \<in> set handledKinds"
    by (auto simp: renderType_def handledKinds_def Let_def kind_defs)
next
  assume "propTypeName (docgenType ep) \<notin> set handledKinds"
  then show "renderType iv ep = None"
    by (auto simp: renderType_def handledKinds_def Let_def)
next
  assume "propTypeName (docgenType ep) = FUNC"
  then show "renderType iv ep =
          Some \<lparr>propText = val (generateType iv ep (docgenType ep)), title = None\<rparr>"
    by (simp add: renderType_def Let_def kind_defs)
next
  let ?r = "generateType iv ep (docgenType ep)"
  assume "propTypeName (docgenType ep) \<in> set handledKinds \<and> propTypeName (docgenType ep) \<noteq> FUNC"
  then have "propTypeName (docgenType ep)
               \<in> {CUSTOM, SHAPE, INSTANCEOF, OBJECTOF, UNION, ENUM, ARRAYOF}"
    by (auto simp: handledKinds_def)
  then have r: "renderType iv ep =
      Some \<lparr>propText = caption ?r, title = (if caption ?r \<noteq> val ?r then val ?r else None)\<rparr>"
    by (simp add: renderType_def Let_def)
  show "\<exists>ti. renderType iv ep = Some \<lparr>propText = caption ?r, title = ti\<rparr>
              \<and> (ti \<noteq> None \<longleftrightarrow> caption ?r \<noteq> val ?r)
              \<and> (ti = None \<or> ti = val ?r)"
  proof (cases rule: case_split [of "caption ?r = val ?r"])
    case True
    with r show ?thesis by simp
  next
    case False
    then have "val ?r \<noteq> None" by (rule caption_val_differ)
    with r False show ?thesis by simp
  qed
qed

theorem renderType_spec_witness:
  "propTypeName (docgenType \<lparr>docgenType = Other ''string'', jsDocTags = None\<rparr>)
     \<notin> set handledKinds
   \<and> renderType (\<lambda>s. Inr STRING) \<lparr>docgenType = Other ''string'', jsDocTags = None\<rparr> = None
   \<and> propTypeName (docgenType \<lparr>docgenType = Func, jsDocTags = None\<rparr>) = FUNC
   \<and> renderType (\<lambda>s. Inr STRING) \<lparr>docgenType = Func, jsDocTags = None\<rparr> =
       Some \<lparr>propText = Some ''func'', title = None\<rparr>
   \<and> propTypeName (docgenType \<lparr>docgenType = InstanceOf (Some ''Date''), jsDocTags = None\<rparr>)
       \<in> set handledKinds
   \<and> propTypeName (docgenType \<lparr>docgenType = InstanceOf (Some ''Date''), jsDocTags = None\<rparr>)
       \<noteq> FUNC
   \<and> renderType (\<lambda>s. Inr STRING) \<lparr>docgenType = InstanceOf (Some ''Date''), jsDocTags = None\<rparr> =
       Some \<lparr>propText = Some ''Date'', title = None\<rparr>"
proof -
  let ?iv = "\<lambda>s. Inr STRING :: error + InspectionType"
  let ?e1 = "\<lparr>docgenType = Other ''string'', jsDocTags = None\<rparr>"
  let ?e2 = "\<lparr>docgenType = Func, jsDocTags = None\<rparr>"
  let ?e3 = "\<lparr>docgenType = InstanceOf (Some ''Date''), jsDocTags = None\<rparr>"
  have h1: "propTypeName (docgenType ?e1) \<notin> set handledKinds"
    by (simp add: handledKinds_def kind_defs)
  have h2: "propTypeName (docgenType ?e2) = FUNC" by simp
  have h3: "propTypeName (docgenType ?e3) \<in> set handledKinds \<and> propTypeName (docgenType ?e3) \<noteq> FUNC"
    by (simp add: handledKinds_def kind_defs)
  from h1 renderType_spec [of ?iv ?e1] have c1: "renderType ?iv ?e1 = None" by blast
  from h2 renderType_spec [of ?iv ?e2]
  have "renderType ?iv ?e2 = Some \<lparr>propText = val (generateType ?iv ?e2 (docgenType ?e2)), title = None\<rparr>"
    by blast
  then have c2: "renderType ?iv ?e2 = Some \<lparr>propText = Some ''func'', title = None\<rparr>"
    by (simp add: generateFunc_result documented_def)
  from h3 renderType_spec [of ?iv ?e3]
  obtain ti where "renderType ?iv ?e3 =
                Some \<lparr>propText = caption (generateType ?iv ?e3 (docgenType ?e3)), title = ti\<rparr>"
    and "ti \<noteq> None \<longleftrightarrow> caption (generateType ?iv ?e3 (docgenType ?e3))
                     \<noteq> val (generateType ?iv ?e3 (docgenType ?e3))"
    by blast
  then have c3: "renderType ?iv ?e3 = Some \<lparr>propText = Some ''Date'', title = None\<rparr>"
    by simp
  from h1 h2 h3 c1 c2 c3 show ?thesis by blast
qed

text \<open>
  A shape too long for its caption is shown as \<open>object\<close>, with its full text as title.
\<close>

lemma renderType_title_example:
  "renderType iv
     \<lparr>docgenType = Shape (Some [(''alpha'', Other ''string''), (''beta'', Other ''number''),
                                  (''gamma'', Other ''bool'')]),
      jsDocTags = None\<rparr> =
     Some \<lparr>propText = Some ''object'',
           title = Some ''{ alpha: string, beta: number, gamma: bool }''\<rparr>"
  by (simp add: renderType_def generateShape_Some shapeString_def kind_defs index_defs)

section \<open>Value and caption\<close>

lemma omitsValue_val_caption:
  assumes "omitsValue iv ep t"
  shows "val (generateType iv ep t) = caption (generateType iv ep t)"
proof (cases rule: case_split [of "raises iv t"])
  case True
  then have "generateType iv ep t = unknownTypeDef" by (rule generateType_raises)
  then show ?thesis by simp
next
  case False
  show ?thesis
  proof (cases t)
    case (Custom raw)
    with assms False have "raw = None" by simp
    with Custom show ?thesis by (simp add: generateCustom_def)
  next
    case Func
    with assms show ?thesis by (simp add: generateFunc_result)
  next
    case (Shape v)
    with assms False show ?thesis by simp
  next
    case (InstanceOf v)
    then show ?thesis by simp
  next
    case (ObjectOf v)
    with assms show ?thesis by simp
  next
    case (Union v)
    with assms show ?thesis by (cases v) (simp_all add: generateUnion_def)
  next
    case (Enum v)
    with assms False show ?thesis by (cases v) (simp_all add: generateEnum_def)
  next
    case (ArrayOf v)
    with assms show ?thesis by (auto simp: generateArray_result [OF refl] Let_def)
  next
    case (Other n)
    then show ?thesis by simp
  qed
qed

text \<open>
  C10, as the code has it: a formatted type that has a caption has a value. Every
  construction that gives \<open>createTypeDef\<close> no value makes the value equal to the caption,
  and \<open>renderType\<close> then attaches no title. Caption and value can be equal in other cases
  as well, and both are undefined when the descriptor's own missing value is passed on as
  the caption.
\<close>

theorem value_defaults_to_caption:
  "(caption (generateType iv ep t) \<noteq> None \<longrightarrow> val (generateType iv ep t) \<noteq> None)
   \<and> (omitsValue iv ep t \<longrightarrow>
        val (generateType iv ep t) = caption (generateType iv ep t)
        \<and> (docgenType ep = t \<longrightarrow>
             renderType iv ep = None
             \<or> (\<exists>x. renderType iv ep = Some \<lparr>propText = x, title = None\<rparr>)))"
proof (intro conjI impI)
  assume "caption (generateType iv ep t) \<noteq> None"
  then show "val (generateType iv ep t) \<noteq> None" by (rule generateType_caption_val)
next
  assume "omitsValue iv ep t"
  then show "val (generateType iv ep t) = caption (generateType iv ep t)"
    by (rule omitsValue_val_caption)
next
  assume "omitsValue iv ep t" and t: "docgenType ep = t"
  then have "val (generateType iv ep t) = caption (generateType iv ep t)"
    by (simp add: omitsValue_val_caption)
  with t show "renderType iv ep = None
             \<or> (\<exists>x. renderType iv ep = Some \<lparr>propText = x, title = None\<rparr>)"
    by (simp add: renderType_def Let_def)
qed

theorem value_defaults_to_caption_witness:
  "caption (generateType (\<lambda>s. Inr STRING) \<lparr>docgenType = Custom None, jsDocTags = None\<rparr>
      (Custom None)) \<noteq> None
   \<and> omitsValue (\<lambda>s. Inr STRING) \<lparr>docgenType = Custom None, jsDocTags = None\<rparr> (Custom None)
   \<and> val (generateType (\<lambda>s. Inr STRING) \<lparr>docgenType = Custom None, jsDocTags = None\<rparr>
        (Custom None)) = Some ''custom''
   \<and> caption (generateType (\<lambda>s. Inr STRING) \<lparr>docgenType = Custom None, jsDocTags = None\<rparr>
        (Custom None)) = Some ''custom''
   \<and> renderType (\<lambda>s. Inr STRING) \<lparr>docgenType = Custom None, jsDocTags = None\<rparr> =
        Some \<lparr>propText = Some ''custom'', title = None\<rparr>"
proof -
  let ?iv = "\<lambda>s. Inr STRING :: error + InspectionType"
  let ?ep = "\<lparr>docgenType = Custom None, jsDocTags = None\<rparr>"
  have c: "caption (generateType ?iv ?ep (Custom None)) = Some ''custom''"
    by (simp add: generateCustom_def)
  have h1: "caption (generateType ?iv ?ep (Custom None)) \<noteq> None" unfolding c by simp
  have h2: "omitsValue ?iv ?ep (Custom None)" by simp
  have h3: "docgenType ?ep = Custom None" by simp
  from h2 h3 value_defaults_to_caption [of ?iv ?ep "Custom None"]
  have v: "val (generateType ?iv ?ep (Custom None)) = caption (generateType ?iv ?ep (Custom None))"
    and r: "renderType ?iv ?ep = None \<or> (\<exists>x. renderType ?iv ?ep = Some \<lparr>propText = x, title = None\<rparr>)"
    by blast+
  have "renderType ?iv ?ep = Some \<lparr>propText = Some ''custom'', title = None\<rparr>"
    by (simp add: renderType_def Let_def generateCustom_def kind_defs)
  with h1 h2 v c r show ?thesis by simp
qed

text \<open>
  The claim as stated fails: an empty shape is built with a value of its own, and its
  caption equals its value; an \<open>instanceOf\<close> without its value has no value at all.
\<close>

theorem value_equals_caption_elsewhere:
  "\<not> omitsValue (\<lambda>s. Inr STRING) \<lparr>docgenType = Shape (Some []), jsDocTags = None\<rparr>
       (Shape (Some []))
   \<and> generateShape (generateType (\<lambda>s. Inr STRING)
          \<lparr>docgenType = Shape (Some []), jsDocTags = None\<rparr>) (Some []) =
       Inr (createTypeDef SHAPE (Some ''{  }'') (Some ''{  }'') None)
   \<and> caption (generateType (\<lambda>s. Inr STRING) \<lparr>docgenType = Shape (Some []), jsDocTags = None\<rparr>
        (Shape (Some []))) = Some ''{  }''
   \<and> val (generateType (\<lambda>s. Inr STRING) \<lparr>docgenType = Shape (Some []), jsDocTags = None\<rparr>
        (Shape (Some []))) = Some ''{  }''
   \<and> val (generateType (\<lambda>s. Inr STRING) \<lparr>docgenType = InstanceOf None, jsDocTags = None\<rparr>
        (InstanceOf None)) = None"
  by (simp add: raises_def generateShape_def objectEntries_def MAX_CAPTION_LENGTH_def Let_def)

end
